theory Spec2Isabelle
  imports Main
begin

section \<open>coinaddr.validation: data model\<close>

text \<open>
  Python \<open>bytes\<close> objects are lists of 8-bit characters; \<open>of_char\<close> reads the
  integer value of one byte, as indexing a \<open>bytes\<close> object does.
\<close>

type_synonym bytes = "char list"

text \<open>The exceptions that the modelled code can raise.\<close>

datatype error =
    ValueError
  | KeyError
  | IndexError
  | TypeError
  | UnicodeError

subsection \<open>The validator registry\<close>

text \<open>
  The three classes of the module. A class carries its \<open>name\<close> attribute
  (\<open>None\<close> for \<open>ValidatorBase\<close>) and the implementation of \<open>validate\<close> and
  \<open>network\<close> it provides; a user-defined subclass may reuse a name.
\<close>

datatype validator_impl = ValidatorBase_impl | Base58Check_impl | Ethereum_impl

record validator_class =
  class_name :: "string option"
  class_impl :: validator_impl

type_synonym registry = "string \<rightharpoonup> validator_class"

definition Validators_getitem :: "registry \<Rightarrow> string \<Rightarrow> error + validator_class" where
  "Validators_getitem validators key =
     (case validators key of None \<Rightarrow> Inl KeyError | Some v \<Rightarrow> Inr v)"

definition Validators_contains :: "registry \<Rightarrow> string \<Rightarrow> bool" where
  "Validators_contains validators key = (validators key \<noteq> None)"

definition Validators_get :: "registry \<Rightarrow> string \<Rightarrow> validator_class option" where
  "Validators_get validators key = validators key"

text \<open>
  \<open>ValidatorMeta.__new__\<close>: the new class is stored under its name when the name is
  truthy (neither \<open>None\<close> nor the empty string) and not yet a key of the registry.
  The registry after the call is returned; the call never raises.
\<close>

definition ValidatorMeta_new :: "registry \<Rightarrow> validator_class \<Rightarrow> registry" where
  "ValidatorMeta_new validators new =
     (case class_name new of
        None \<Rightarrow> validators
      | Some n \<Rightarrow>
          if n \<noteq> [] \<and> \<not> Validators_contains validators n
          then validators(n \<mapsto> new)
          else validators)"

definition ValidatorBase :: validator_class where
  "ValidatorBase = \<lparr>class_name = None, class_impl = ValidatorBase_impl\<rparr>"

definition Base58CheckValidator :: validator_class where
  "Base58CheckValidator = \<lparr>class_name = Some ''Base58Check'', class_impl = Base58Check_impl\<rparr>"

definition EthereumValidator :: validator_class where
  "EthereumValidator = \<lparr>class_name = Some ''Ethereum'', class_impl = Ethereum_impl\<rparr>"

text \<open>The registry once the module has been loaded: the classes in definition order.\<close>

definition module_validators :: registry where
  "module_validators =
     foldl ValidatorMeta_new Map.empty [ValidatorBase, Base58CheckValidator, EthereumValidator]"

subsection \<open>Library functions outside the repository\<close>

text \<open>
  \<open>hashlib.sha256\<close> and \<open>sha3.keccak_256\<close> are not part of the repository. The
  validators receive them as arguments: \<open>sha256\<close> maps a message to its digest bytes,
  \<open>keccak_256_hexdigest\<close> maps a message to the hexadecimal text of its digest. Every
  theorem below holds for any pair of such functions.
\<close>

record hash_functions =
  sha256 :: "bytes \<Rightarrow> bytes"
  keccak_256_hexdigest :: "bytes \<Rightarrow> string"

text \<open>
  \<open>bytes.lstrip(chars)\<close> and \<open>str.lstrip(chars)\<close>: drop leading characters as long as
  they occur in \<open>chars\<close>.
\<close>

definition lstrip :: "'a list \<Rightarrow> 'a list \<Rightarrow> 'a list" where
  "lstrip chars s = dropWhile (\<lambda>c. c \<in> set chars) s"

text \<open>\<open>bytes.index\<close>: position of the first occurrence, \<open>ValueError\<close> when absent.\<close>

fun bytes_index :: "bytes \<Rightarrow> char \<Rightarrow> error + nat" where
  "bytes_index [] c = Inl ValueError"
| "bytes_index (x # xs) c =
     (if x = c then Inr 0
      else case bytes_index xs c of Inl e \<Rightarrow> Inl e | Inr i \<Rightarrow> Inr (Suc i))"

text \<open>
  The package \<open>base58check\<close> (functions \<open>b58decode\<close> and \<open>b58encode\<close>) is a
  third-party library. The model follows its published source: both functions raise
  \<open>ValueError\<close> when the character set does not have 58 entries; leading occurrences
  of the first character of the set stand for leading zero bytes; \<open>b58decode\<close> looks
  every remaining character up with \<open>charset.index\<close>, which raises \<open>ValueError\<close>
  for a character outside the set. The optional argument is the \<open>charset\<close> keyword.
\<close>

definition DEFAULT_CHARSET :: bytes where
  "DEFAULT_CHARSET = ''123456789ABCDEFGHJKLMNPQRSTUVWXYZabcdefghijkmnopqrstuvwxyz''"

fun b58decode_int :: "bytes \<Rightarrow> nat \<Rightarrow> bytes \<Rightarrow> error + nat" where
  "b58decode_int charset output [] = Inr output"
| "b58decode_int charset output (ch # val) =
     (case bytes_index charset ch of
        Inl e \<Rightarrow> Inl e
      | Inr i \<Rightarrow> b58decode_int charset (output * length charset + i) val)"

text \<open>The loop \<open>while acc > 0: acc, mod = divmod(acc, 256); result.appendleft(mod)\<close>.\<close>

function int_to_bytes :: "nat \<Rightarrow> bytes \<Rightarrow> bytes" where
  "int_to_bytes acc result =
     (if acc > 0 then int_to_bytes (acc div 256) (char_of (acc mod 256) # result) else result)"
  by pat_completeness auto
termination
  by (relation "measure (\<lambda>(acc, result). acc)") auto

definition b58decode :: "bytes \<Rightarrow> bytes option \<Rightarrow> error + bytes" where
  "b58decode val extras =
     (let charset = (case extras of None \<Rightarrow> DEFAULT_CHARSET | Some cs \<Rightarrow> cs) in
      if length charset \<noteq> 58 then Inl ValueError
      else
        let stripped = lstrip [hd charset] val;
            pad_len = length val - length stripped
        in case b58decode_int charset 0 stripped of
             Inl e \<Rightarrow> Inl e
           | Inr acc \<Rightarrow> Inr (replicate pad_len (CHR 0x00) @ int_to_bytes acc []))"

text \<open>
  The loop \<open>for char in reversed(val): acc += p * char; p = p << 8\<close> of \<open>b58encode\<close>.
\<close>

fun bytes_to_int :: "nat \<Rightarrow> nat \<Rightarrow> bytes \<Rightarrow> nat" where
  "bytes_to_int p acc [] = acc"
| "bytes_to_int p acc (ch # rest) = bytes_to_int (p * 256) (acc + p * of_char ch) rest"

text \<open>
  The loop \<open>while int_: int_, idx = divmod(int_, base); output = charset[idx:idx+1] + output\<close>;
  it runs only after \<open>base\<close> has been checked to be 58.
\<close>

function b58encode_int :: "bytes \<Rightarrow> nat \<Rightarrow> bytes \<Rightarrow> bytes" where
  "b58encode_int charset n output =
     (if n \<noteq> 0 then b58encode_int charset (n div 58) (charset ! (n mod 58) # output)
      else output)"
  by pat_completeness auto
termination
  by (relation "measure (\<lambda>(charset, n, output). n)") auto

definition b58encode :: "bytes \<Rightarrow> bytes option \<Rightarrow> error + bytes" where
  "b58encode val extras =
     (let charset = (case extras of None \<Rightarrow> DEFAULT_CHARSET | Some cs \<Rightarrow> cs) in
      if length charset \<noteq> 58 then Inl ValueError
      else
        let stripped = lstrip [CHR 0x00] val;
            pad_len = length val - length stripped;
            acc = bytes_to_int 1 0 (rev stripped)
        in Inr (replicate pad_len (hd charset) @ b58encode_int charset acc []))"

subsection \<open>Currencies, requests and results\<close>

text \<open>
  Modelled from the spec: the catalog module \<open>coinaddr.currency\<close> is not under src/.
  A currency has a name, a ticker, the name of its validator, its networks (a dict from
  a network label to the version bytes of that network, kept in insertion order) and an
  optional character set for the base-58 alphabet. \<open>Currencies.get\<close> resolves an
  identifier to a currency or to \<open>None\<close>; it is a parameter of the entrypoint.
\<close>

record Currency =
  name :: string
  ticker :: string
  validator :: string
  networks :: "(string \<times> int list) list"
  charset :: "bytes option"

record ValidationRequest =
  currency :: Currency
  address :: bytes

record ValidationResult =
  res_name :: string
  res_ticker :: string
  res_address :: bytes
  valid :: bool
  network :: string

text \<open>
  \<open>ValidationRequest.extras\<close>: the keyword arguments for the decoder, that is the
  character set of the currency when it is truthy.
\<close>

definition ValidationRequest_extras :: "ValidationRequest \<Rightarrow> bytes option" where
  "ValidationRequest_extras req =
     (case charset (currency req) of
        None \<Rightarrow> None
      | Some cs \<Rightarrow> if cs \<noteq> [] then Some cs else None)"

text \<open>
  \<open>ValidationRequest.networks\<close>: \<open>functools.reduce(operator.concat, networks)\<close> over the
  values of the dict; \<open>reduce\<close> without an initial value raises \<open>TypeError\<close> on an
  empty sequence.
\<close>

definition ValidationRequest_networks :: "ValidationRequest \<Rightarrow> error + int list" where
  "ValidationRequest_networks req =
     (case map snd (networks (currency req)) of
        [] \<Rightarrow> Inl TypeError
      | n # ns \<Rightarrow> Inr (foldl (@) n ns))"

text \<open>
  The constructor of \<open>ValidationResult\<close>: the only argument that \<open>execute\<close> can pass
  with a wrong type is \<open>network\<close>, which is \<open>None\<close> when the validator found no
  network; \<open>instance_of(str)\<close> then raises \<open>TypeError\<close>.
\<close>

definition ValidationResult_init ::
  "string \<Rightarrow> string \<Rightarrow> bytes \<Rightarrow> bool \<Rightarrow> string option \<Rightarrow> error + ValidationResult" where
  "ValidationResult_init n t a v nw =
     (case nw of
        None \<Rightarrow> Inl TypeError
      | Some s \<Rightarrow> Inr \<lparr>res_name = n, res_ticker = t, res_address = a, valid = v, network = s\<rparr>)"

subsection \<open>Base58CheckValidator\<close>

text \<open>
  \<open>abytes[:-4]\<close> and \<open>abytes[-4:]\<close> are Python slices: on fewer than four bytes the
  first is empty and the second is the whole sequence.
\<close>

definition Base58CheckValidator_validate :: "hash_functions \<Rightarrow> ValidationRequest \<Rightarrow> error + bool" where
  "Base58CheckValidator_validate H req =
     (if 25 > length (address req) \<and> length (address req) > 35 then Inr False
      else
        case b58decode (address req) (ValidationRequest_extras req) of
          Inl e \<Rightarrow> Inl e
        | Inr abytes \<Rightarrow>
            (case abytes of
               [] \<Rightarrow> Inl IndexError
             | b0 # _ \<Rightarrow>
                 (case ValidationRequest_networks req of
                    Inl e \<Rightarrow> Inl e
                  | Inr nets \<Rightarrow>
                      if of_char b0 \<notin> set nets then Inr False
                      else
                        let checksum =
                              take 4 (sha256 H (sha256 H (take (length abytes - 4) abytes)))
                        in if drop (length abytes - 4) abytes \<noteq> checksum then Inr False
                           else
                             (case b58encode abytes (ValidationRequest_extras req) of
                                Inl e \<Rightarrow> Inl e
                              | Inr encoded \<Rightarrow> Inr (address req = encoded)))))"

text \<open>The loop of the \<open>network\<close> property: the first label whose version bytes hold \<open>nbyte\<close>.\<close>

fun network_of_byte :: "int \<Rightarrow> (string \<times> int list) list \<Rightarrow> string option" where
  "network_of_byte nbyte [] = None"
| "network_of_byte nbyte ((label, nets) # rest) =
     (if nbyte \<in> set nets then Some label else network_of_byte nbyte rest)"

definition Base58CheckValidator_network :: "ValidationRequest \<Rightarrow> error + string option" where
  "Base58CheckValidator_network req =
     (case b58decode (address req) (ValidationRequest_extras req) of
        Inl e \<Rightarrow> Inl e
      | Inr abytes \<Rightarrow>
          (case abytes of
             [] \<Rightarrow> Inl IndexError
           | nbyte # _ \<Rightarrow> Inr (network_of_byte (of_char nbyte) (networks (currency req)))))"

subsection \<open>EthereumValidator\<close>

text \<open>
  The two patterns \<open>^(0x)?[0-9a-f]{40}$\<close> and \<open>^(0x)?[0-9A-F]{40}$\<close>, applied with
  \<open>match\<close>: an optional prefix \<open>0x\<close>, forty digits of the class, and the end of
  the text, which \<open>$\<close> also finds in front of one final newline.
\<close>

definition lower_hex :: "char \<Rightarrow> bool" where
  "lower_hex c = (c \<in> set ''0123456789abcdef'')"

definition upper_hex :: "char \<Rightarrow> bool" where
  "upper_hex c = (c \<in> set ''0123456789ABCDEF'')"

definition match_hex40 :: "(char \<Rightarrow> bool) \<Rightarrow> string \<Rightarrow> bool" where
  "match_hex40 digit s =
     (40 \<le> length s \<and> list_all digit (take 40 s)
      \<and> (drop 40 s = [] \<or> drop 40 s = [CHR 0x0A]))"

definition pattern_match :: "(char \<Rightarrow> bool) \<Rightarrow> string \<Rightarrow> bool" where
  "pattern_match digit s =
     ((take 2 s = ''0x'' \<and> match_hex40 digit (drop 2 s)) \<or> match_hex40 digit s)"

text \<open>\<open>str.upper\<close> and \<open>str.lower\<close> on one ASCII character.\<close>

definition upper :: "char \<Rightarrow> char" where
  "upper c =
     (case map_of (zip ''abcdefghijklmnopqrstuvwxyz'' ''ABCDEFGHIJKLMNOPQRSTUVWXYZ'') c of
        Some d \<Rightarrow> d
      | None \<Rightarrow> c)"

definition lower :: "char \<Rightarrow> char" where
  "lower c =
     (case map_of (zip ''ABCDEFGHIJKLMNOPQRSTUVWXYZ'' ''abcdefghijklmnopqrstuvwxyz'') c of
        Some d \<Rightarrow> d
      | None \<Rightarrow> c)"

text \<open>\<open>int(c, 16)\<close> on one ASCII character: \<open>ValueError\<close> unless it is a hex digit.\<close>

definition int16 :: "char \<Rightarrow> error + nat" where
  "int16 c =
     (case map_of (zip ''0123456789abcdefABCDEF''
                   [0, 1, 2, 3, 4, 5, 6, 7, 8, 9, 10, 11, 12, 13, 14, 15, 10, 11, 12, 13, 14, 15]) c of
        Some v \<Rightarrow> Inr v
      | None \<Rightarrow> Inl ValueError)"

text \<open>
  The loop \<open>for i in range(0, len(addr))\<close>, walking \<open>addr_hash\<close> and \<open>addr\<close> from
  position \<open>i\<close> on: \<open>addr_hash[i]\<close> raises \<open>IndexError\<close> once the digest text is
  used up.
\<close>

fun check_case :: "string \<Rightarrow> string \<Rightarrow> error + bool" where
  "check_case addr_hash [] = Inr True"
| "check_case [] (c # addr) = Inl IndexError"
| "check_case (d # addr_hash) (c # addr) =
     (case int16 d of
        Inl e \<Rightarrow> Inl e
      | Inr v \<Rightarrow>
          if (v > 7 \<and> upper c \<noteq> c) \<or> (v \<le> 7 \<and> lower c \<noteq> c) then Inr False
          else check_case addr_hash addr)"

definition is_ascii :: "bytes \<Rightarrow> bool" where
  "is_ascii s = list_all (\<lambda>c. of_char c < (128 :: nat)) s"

text \<open>
  Text that is not ASCII. \<open>decode()\<close> reads the address as UTF-8 and raises
  \<open>UnicodeDecodeError\<close> on bytes that are not UTF-8; \<open>addr.lower().encode('ascii')\<close>
  raises \<open>UnicodeEncodeError\<close> when the lowercase text keeps a character that is not
  ASCII. Both exceptions are the outcome \<open>UnicodeError\<close>. The lowercase form of every
  character that is not ASCII keeps such a character, except for the Kelvin sign U+212A
  (the bytes E2 84 AA), whose lowercase form is \<open>k\<close>. So the only texts with a
  character outside ASCII that reach the digest and the loop are made of ASCII characters
  and Kelvin signs; neither pattern matches such a text. The Kelvin sign is its own
  uppercase form.
\<close>

datatype uchar = Ascii char | Kelvin

fun decode_text :: "bytes \<Rightarrow> uchar list option" where
  "decode_text [] = Some []"
| "decode_text (b # bs) =
     (if of_char b < (128 :: nat) then map_option ((#) (Ascii b)) (decode_text bs)
      else if b = CHR 0xE2 \<and> take 2 bs = [CHR 0x84, CHR 0xAA]
      then map_option ((#) Kelvin) (decode_text (drop 2 bs))
      else None)"

text \<open>\<open>c.upper() == c\<close>, \<open>c.lower() == c\<close> and the byte of \<open>c.lower()\<close> for such a character.\<close>

definition uchar_upper_same :: "uchar \<Rightarrow> bool" where
  "uchar_upper_same u = (case u of Ascii c \<Rightarrow> upper c = c | Kelvin \<Rightarrow> True)"

definition uchar_lower_same :: "uchar \<Rightarrow> bool" where
  "uchar_lower_same u = (case u of Ascii c \<Rightarrow> lower c = c | Kelvin \<Rightarrow> False)"

definition uchar_lower_byte :: "uchar \<Rightarrow> char" where
  "uchar_lower_byte u = (case u of Ascii c \<Rightarrow> lower c | Kelvin \<Rightarrow> CHR ''k'')"

text \<open>The same loop as \<open>check_case\<close>, over a text with Kelvin signs.\<close>

fun check_case_text :: "string \<Rightarrow> uchar list \<Rightarrow> error + bool" where
  "check_case_text addr_hash [] = Inr True"
| "check_case_text [] (c # addr) = Inl IndexError"
| "check_case_text (d # addr_hash) (c # addr) =
     (case int16 d of
        Inl e \<Rightarrow> Inl e
      | Inr v \<Rightarrow>
          if (v > 7 \<and> \<not> uchar_upper_same c) \<or> (v \<le> 7 \<and> \<not> uchar_lower_same c)
          then Inr False
          else check_case_text addr_hash addr)"

text \<open>
  \<open>EthereumValidator.validate\<close>. The text of an ASCII address is the address itself,
  and \<open>upper\<close>, \<open>lower\<close> and \<open>encode('ascii')\<close> act on its bytes. An address with
  a byte from 0x80 on is decoded first; its text matches no pattern.
\<close>

definition EthereumValidator_validate :: "hash_functions \<Rightarrow> ValidationRequest \<Rightarrow> error + bool" where
  "EthereumValidator_validate H req =
     (if is_ascii (address req)
      then
        if pattern_match lower_hex (address req) \<or> pattern_match upper_hex (address req)
        then Inr True
        else
          let addr = lstrip ''0x'' (address req);
              addr_hash = keccak_256_hexdigest H (map lower addr)
          in check_case addr_hash addr
      else
        case decode_text (address req) of
          None \<Rightarrow> Inl UnicodeError
        | Some text \<Rightarrow>
            let addr = lstrip [Ascii CHR ''0'', Ascii CHR ''x''] text;
                addr_hash = keccak_256_hexdigest H (map uchar_lower_byte addr)
            in check_case_text addr_hash addr)"

definition EthereumValidator_network :: "ValidationRequest \<Rightarrow> error + string option" where
  "EthereumValidator_network req = Inr (Some ''both'')"

subsection \<open>Executing a request\<close>

text \<open>
  \<open>ValidationRequest.execute\<close>. Calling the \<open>None\<close> that \<open>Validators.get\<close> returns
  for an unregistered name raises \<open>TypeError\<close>. The arguments of the result are
  evaluated in order: \<open>validate()\<close> before \<open>network\<close>. The abstract base class is
  never registered; its \<open>validate\<close> returns \<open>None\<close>, which the result rejects with
  \<open>TypeError\<close>.
\<close>

definition execute :: "hash_functions \<Rightarrow> registry \<Rightarrow> ValidationRequest \<Rightarrow> error + ValidationResult" where
  "execute H validators req =
     (case Validators_get validators (validator (currency req)) of
        None \<Rightarrow> Inl TypeError
      | Some cls \<Rightarrow>
          (case class_impl cls of
             ValidatorBase_impl \<Rightarrow> Inl TypeError
           | Base58Check_impl \<Rightarrow>
               (case Base58CheckValidator_validate H req of
                  Inl e \<Rightarrow> Inl e
                | Inr v \<Rightarrow>
                    (case Base58CheckValidator_network req of
                       Inl e \<Rightarrow> Inl e
                     | Inr nw \<Rightarrow>
                         ValidationResult_init (name (currency req)) (ticker (currency req))
                           (address req) v nw))
           | Ethereum_impl \<Rightarrow>
               (case EthereumValidator_validate H req of
                  Inl e \<Rightarrow> Inl e
                | Inr v \<Rightarrow>
                    (case EthereumValidator_network req of
                       Inl e \<Rightarrow> Inl e
                     | Inr nw \<Rightarrow>
                         ValidationResult_init (name (currency req)) (ticker (currency req))
                           (address req) v nw))))"

text \<open>
  The entrypoint takes the address as \<open>bytes\<close> or as \<open>str\<close> (a list of code points);
  text is converted with \<open>encode('ascii')\<close>. The converters of both attributes run
  before the validators, so a text that is not ASCII fails before an unknown currency
  does; an unknown currency is \<open>None\<close> and fails \<open>instance_of(Currency)\<close>.
\<close>

datatype address_arg = Bytes bytes | Str "nat list"

definition encode_ascii :: "nat list \<Rightarrow> error + bytes" where
  "encode_ascii s =
     (if list_all (\<lambda>cp. cp < 128) s then Inr (map char_of s) else Inl UnicodeError)"

definition ValidationRequest_init ::
  "(string \<Rightarrow> Currency option) \<Rightarrow> string \<Rightarrow> address_arg \<Rightarrow> error + ValidationRequest" where
  "ValidationRequest_init Currencies_get cur a =
     (case (case a of Bytes b \<Rightarrow> Inr b | Str s \<Rightarrow> encode_ascii s) of
        Inl e \<Rightarrow> Inl e
      | Inr b \<Rightarrow>
          (case Currencies_get cur of
             None \<Rightarrow> Inl TypeError
           | Some c \<Rightarrow> Inr \<lparr>currency = c, address = b\<rparr>))"

definition validate ::
  "hash_functions \<Rightarrow> (string \<Rightarrow> Currency option) \<Rightarrow> string \<Rightarrow> address_arg
     \<Rightarrow> error + ValidationResult" where
  "validate H Currencies_get cur a =
     (case ValidationRequest_init Currencies_get cur a of
        Inl e \<Rightarrow> Inl e
      | Inr request \<Rightarrow> execute H module_validators request)"

text \<open>
  Modelled from the spec: the catalog entry that the entrypoint's docstring uses
  (name \<open>bitcoin\<close>, ticker \<open>btc\<close>, network \<open>main\<close>), with Bitcoin's version bytes
  and the default alphabet. It serves as the concrete currency of the evaluations below.
\<close>

definition bitcoin :: Currency where
  "bitcoin = \<lparr>name = ''bitcoin'', ticker = ''btc'', validator = ''Base58Check'',
              networks = [(''main'', [0x00, 0x05]), (''test'', [0x6f, 0xc4])],
              charset = None\<rparr>"

text \<open>
  Modelled from the spec: the catalog entry of the spec's scenarios for \<open>eth\<close>, a
  currency validated by \<open>EthereumValidator\<close>, without networks and without a
  character set.
\<close>

definition ethereum :: Currency where
  "ethereum = \<lparr>name = ''ethereum'', ticker = ''eth'', validator = ''Ethereum'',
               networks = [], charset = None\<rparr>"

definition Currencies_get :: "string \<Rightarrow> Currency option" where
  "Currencies_get key =
     (if key = ''bitcoin'' \<or> key = ''btc'' then Some bitcoin
      else if key = ''ethereum'' \<or> key = ''eth'' then Some ethereum
      else None)"

text \<open>
  The rule of the spec at one position, for the value \<open>v\<close> of the digest's digit and
  the character \<open>c\<close> of the address: a digit greater than 7 asks for an uppercase
  character, a digit up to 7 for a lowercase one; a character is uppercase (lowercase)
  when \<open>upper\<close> (\<open>lower\<close>) leaves it unchanged, as the code tests it.
\<close>

definition spec_case_ok :: "nat \<Rightarrow> char \<Rightarrow> bool" where
  "spec_case_ok v c = ((v > 7 \<longrightarrow> upper c = c) \<and> (v \<le> 7 \<longrightarrow> lower c = c))"

text \<open>
  A pair of digest functions whose outputs have the shape of the real ones (32 bytes,
  64 hexadecimal digits). The theorems below hold for every pair of digest functions;
  this pair instantiates them where a closed instance is evaluated.
\<close>

definition constant_digests :: hash_functions where
  "constant_digests =
     \<lparr>sha256 = (\<lambda>m. replicate 32 (CHR 0x00)),
      keccak_256_hexdigest =
        (\<lambda>m. ''0f0f0f0f0f0f0f0f0f0f0f0f0f0f0f0f0f0f0f0f0f0f0f0f0f0f0f0f0f0f0f0f'')\<rparr>"

section \<open>Registry: first registration wins\<close>

lemma ValidatorMeta_new_present:
  "validators n = Some v \<Longrightarrow> ValidatorMeta_new validators new n = Some v"
  by (auto simp: ValidatorMeta_new_def Validators_contains_def split: option.splits)

lemma ValidatorMeta_new_other:
  "class_name new \<noteq> Some n \<Longrightarrow> ValidatorMeta_new validators new n = validators n"
  by (auto simp: ValidatorMeta_new_def split: option.splits)

lemma ValidatorMeta_new_empty_name:
  "ValidatorMeta_new validators new [] = validators []"
  by (auto simp: ValidatorMeta_new_def split: option.splits)

lemma foldl_ValidatorMeta_new_present:
  "validators n = Some v \<Longrightarrow> foldl ValidatorMeta_new validators cs n = Some v"
  by (induction cs arbitrary: validators) (simp_all add: ValidatorMeta_new_present)

lemma foldl_ValidatorMeta_new_absent:
  "validators n = None \<Longrightarrow>
   foldl ValidatorMeta_new validators cs n =
     (if n = [] then None else List.find (\<lambda>c. class_name c = Some n) cs)"
proof (induction cs arbitrary: validators)
  case Nil
  then show ?case by simp
next
  case (Cons c cs)
  show ?case
  proof (cases "class_name c = Some n \<and> n \<noteq> []")
    case True
    then have "ValidatorMeta_new validators c n = Some c"
      using Cons.prems by (simp add: ValidatorMeta_new_def Validators_contains_def)
    then have "foldl ValidatorMeta_new (ValidatorMeta_new validators c) cs n = Some c"
      by (rule foldl_ValidatorMeta_new_present)
    with True show ?thesis by simp
  next
    case False
    then have "ValidatorMeta_new validators c n = None"
      using Cons.prems
      by (cases "n = []") (simp_all add: ValidatorMeta_new_empty_name ValidatorMeta_new_other)
    then have "foldl ValidatorMeta_new (ValidatorMeta_new validators c) cs n =
        (if n = [] then None else List.find (\<lambda>c. class_name c = Some n) cs)"
      by (rule Cons.IH)
    with False show ?thesis by auto
  qed
qed

text \<open>
  C8. Registration is first-wins and idempotent. A class is added under its name only
  when the registry has no entry for that name (and the name is truthy); registering a
  class under a name that is already present returns the registry unchanged, and the
  operation has no error outcome; after any sequence of class definitions starting from
  the empty registry, looking a name up yields the first class of the sequence that
  carries this name.
\<close>

theorem register_first_wins:
  "(Validators_get (ValidatorMeta_new validators new) n \<noteq> Validators_get validators n
      \<longrightarrow> validators n = None \<and> class_name new = Some n
          \<and> Validators_get (ValidatorMeta_new validators new) n = Some new)
   \<and> (class_name new = Some n \<and> Validators_contains validators n
      \<longrightarrow> ValidatorMeta_new validators new = validators)
   \<and> (class_name new = Some n \<and> n \<noteq> [] \<and> \<not> Validators_contains validators n
      \<longrightarrow> Validators_get (ValidatorMeta_new validators new) n = Some new)
   \<and> Validators_get (foldl ValidatorMeta_new Map.empty cs) n =
       (if n = [] then None else List.find (\<lambda>c. class_name c = Some n) cs)"
proof -
  have a: "Validators_get (ValidatorMeta_new validators new) n \<noteq> Validators_get validators n
      \<longrightarrow> validators n = None \<and> class_name new = Some n
          \<and> Validators_get (ValidatorMeta_new validators new) n = Some new"
    by (auto simp: ValidatorMeta_new_def Validators_get_def Validators_contains_def
        split: option.splits if_splits)
  have b: "class_name new = Some n \<and> Validators_contains validators n
      \<longrightarrow> ValidatorMeta_new validators new = validators"
    by (simp add: ValidatorMeta_new_def)
  have c: "class_name new = Some n \<and> n \<noteq> [] \<and> \<not> Validators_contains validators n
      \<longrightarrow> Validators_get (ValidatorMeta_new validators new) n = Some new"
    by (simp add: ValidatorMeta_new_def Validators_get_def)
  have d: "Validators_get (foldl ValidatorMeta_new Map.empty cs) n =
       (if n = [] then None else List.find (\<lambda>c. class_name c = Some n) cs)"
    unfolding Validators_get_def by (rule foldl_ValidatorMeta_new_absent) simp
  from a b c d show ?thesis by blast
qed

theorem register_first_wins_witness:
  "ValidatorMeta_new module_validators
       \<lparr>class_name = Some ''Ethereum'', class_impl = Base58Check_impl\<rparr> = module_validators
   \<and> Validators_get (ValidatorMeta_new Map.empty EthereumValidator) ''Ethereum''
       = Some EthereumValidator
   \<and> Validators_get (foldl ValidatorMeta_new Map.empty
         [ValidatorBase, Base58CheckValidator,
          \<lparr>class_name = Some ''Base58Check'', class_impl = Ethereum_impl\<rparr>,
          EthereumValidator]) ''Base58Check'' = Some Base58CheckValidator
   \<and> Validators_get (ValidatorMeta_new Map.empty Base58CheckValidator) ''Base58Check''
       = Some Base58CheckValidator"
proof -
  let ?dup = "\<lparr>class_name = Some ''Ethereum'', class_impl = Base58Check_impl\<rparr>"
  let ?cs = "[ValidatorBase, Base58CheckValidator,
          \<lparr>class_name = Some ''Base58Check'', class_impl = Ethereum_impl\<rparr>,
          EthereumValidator]"
  have present: "Validators_contains module_validators ''Ethereum''"
    by (simp add: module_validators_def ValidatorMeta_new_def Validators_contains_def
        ValidatorBase_def Base58CheckValidator_def EthereumValidator_def)
  have absent: "\<not> Validators_contains Map.empty ''Ethereum''"
    by (simp add: Validators_contains_def)
  have nm: "class_name EthereumValidator = Some ''Ethereum''"
    by (simp add: EthereumValidator_def)
  have c1: "ValidatorMeta_new module_validators ?dup = module_validators"
    using register_first_wins [of module_validators ?dup "''Ethereum''" "[]",
        THEN conjunct2, THEN conjunct1] present
    by simp
  have c2: "Validators_get (ValidatorMeta_new Map.empty EthereumValidator) ''Ethereum''
       = Some EthereumValidator"
    using register_first_wins [of Map.empty EthereumValidator "''Ethereum''" "[]",
        THEN conjunct2, THEN conjunct2, THEN conjunct1] absent nm
    by simp
  have c3: "Validators_get (foldl ValidatorMeta_new Map.empty ?cs) ''Base58Check''
       = Some Base58CheckValidator"
    unfolding register_first_wins [of Map.empty EthereumValidator "''Base58Check''" ?cs,
        THEN conjunct2, THEN conjunct2, THEN conjunct2]
    by (simp add: ValidatorBase_def Base58CheckValidator_def)
  have changed: "Validators_get (ValidatorMeta_new Map.empty Base58CheckValidator) ''Base58Check''
      \<noteq> Validators_get Map.empty ''Base58Check''"
    by (simp add: ValidatorMeta_new_def Validators_get_def Validators_contains_def
        Base58CheckValidator_def)
  from register_first_wins [of Map.empty Base58CheckValidator "''Base58Check''" "[]",
      THEN conjunct1] changed
  have c4: "Validators_get (ValidatorMeta_new Map.empty Base58CheckValidator) ''Base58Check''
      = Some Base58CheckValidator"
    by blast
  from c1 c2 c3 c4 show ?thesis by simp
qed

section \<open>Base58Check: helper facts\<close>

lemma length_gate_dead: "(25 > (n::nat) \<and> n > 35) = False"
  by arith

lemma foldl_append_concat: "foldl (@) n ns = n @ concat ns"
  by (induction ns arbitrary: n) simp_all

lemma ValidationRequest_networks_concat:
  "ValidationRequest_networks req = Inr nets \<Longrightarrow>
   nets = concat (map snd (networks (currency req)))"
  by (auto simp: ValidationRequest_networks_def foldl_append_concat split: list.splits)

lemma ValidationRequest_networks_empty:
  "networks (currency req) = [] \<Longrightarrow> ValidationRequest_networks req = Inl TypeError"
  by (simp add: ValidationRequest_networks_def)

lemma ValidationRequest_networks_nonempty:
  "networks (currency req) \<noteq> [] \<Longrightarrow>
   ValidationRequest_networks req = Inr (concat (map snd (networks (currency req))))"
  by (cases "networks (currency req)")
     (simp_all add: ValidationRequest_networks_def foldl_append_concat)

lemma network_of_byte_None_iff:
  "network_of_byte b nws = None \<longleftrightarrow> b \<notin> set (concat (map snd nws))"
  by (induction b nws rule: network_of_byte.induct) auto

lemma network_of_byte_Some_nonempty: "network_of_byte b nws = Some l \<Longrightarrow> nws \<noteq> []"
  by (cases nws) simp_all

lemma b58decode_ok_charset:
  "b58decode val extras = Inr x \<Longrightarrow>
   length (case extras of None \<Rightarrow> DEFAULT_CHARSET | Some cs \<Rightarrow> cs) = 58"
  by (simp add: b58decode_def Let_def split: if_splits)

lemma b58encode_ok:
  "length (case extras of None \<Rightarrow> DEFAULT_CHARSET | Some cs \<Rightarrow> cs) = 58 \<Longrightarrow>
   \<exists>enc. b58encode val extras = Inr enc"
  by (simp add: b58encode_def Let_def)

text \<open>The body of \<open>validate\<close> once the address has been decoded to a non-empty sequence.\<close>

lemma Base58CheckValidator_validate_decoded:
  assumes "b58decode (address req) (ValidationRequest_extras req) = Inr (b0 # rest)"
    and "ValidationRequest_networks req = Inr nets"
  shows "Base58CheckValidator_validate H req =
     (if of_char b0 \<notin> set nets then Inr False
      else if drop (length (b0 # rest) - 4) (b0 # rest)
              \<noteq> take 4 (sha256 H (sha256 H (take (length (b0 # rest) - 4) (b0 # rest))))
      then Inr False
      else case b58encode (b0 # rest) (ValidationRequest_extras req) of
             Inl e \<Rightarrow> Inl e
           | Inr encoded \<Rightarrow> Inr (address req = encoded))"
  using assms
  by (simp add: Base58CheckValidator_validate_def Let_def length_gate_dead)

lemma Base58CheckValidator_validate_True:
  assumes "Base58CheckValidator_validate H req = Inr True"
  shows "\<exists>b0 rest nets.
     b58decode (address req) (ValidationRequest_extras req) = Inr (b0 # rest)
     \<and> ValidationRequest_networks req = Inr nets
     \<and> of_char b0 \<in> set nets
     \<and> drop (length (b0 # rest) - 4) (b0 # rest)
         = take 4 (sha256 H (sha256 H (take (length (b0 # rest) - 4) (b0 # rest))))
     \<and> b58encode (b0 # rest) (ValidationRequest_extras req) = Inr (address req)"
  using assms
  by (auto simp: Base58CheckValidator_validate_def Let_def length_gate_dead
      split: if_splits sum.splits list.splits)


lemma Base58CheckValidator_validate_decode_error:
  "b58decode (address req) (ValidationRequest_extras req) = Inl e \<Longrightarrow>
   Base58CheckValidator_validate H req = Inl e"
  by (simp add: Base58CheckValidator_validate_def length_gate_dead)

lemma Base58CheckValidator_validate_empty:
  "b58decode (address req) (ValidationRequest_extras req) = Inr [] \<Longrightarrow>
   Base58CheckValidator_validate H req = Inl IndexError"
  by (simp add: Base58CheckValidator_validate_def length_gate_dead)

lemma module_validators_Base58Check:
  "Validators_get module_validators ''Base58Check'' = Some Base58CheckValidator"
  by (simp add: module_validators_def ValidatorMeta_new_def Validators_contains_def
      Validators_get_def ValidatorBase_def Base58CheckValidator_def EthereumValidator_def)

lemma execute_Base58Check:
  assumes "Validators_get validators (validator (currency req)) = Some cls"
    and "class_impl cls = Base58Check_impl"
  shows "execute H validators req =
     (case Base58CheckValidator_validate H req of
        Inl e \<Rightarrow> Inl e
      | Inr v \<Rightarrow>
          (case Base58CheckValidator_network req of
             Inl e \<Rightarrow> Inl e
           | Inr nw \<Rightarrow>
               ValidationResult_init (name (currency req)) (ticker (currency req))
                 (address req) v nw))"
  using assms by (simp add: execute_def)

text \<open>Evaluations on the bitcoin entry with the default alphabet.\<close>

lemma bitcoin_extras: "ValidationRequest_extras \<lparr>currency = bitcoin, address = a\<rparr> = None"
  by (simp add: ValidationRequest_extras_def bitcoin_def)

lemma bitcoin_networks:
  "ValidationRequest_networks \<lparr>currency = bitcoin, address = a\<rparr> = Inr [0x00, 0x05, 0x6f, 0xc4]"
  by (simp add: ValidationRequest_networks_def bitcoin_def)

lemma b58decode_empty: "b58decode [] None = Inr []"
  by (simp add: b58decode_def DEFAULT_CHARSET_def lstrip_def)

lemma b58decode_0: "b58decode ''0'' None = Inl ValueError"
  by (simp add: b58decode_def DEFAULT_CHARSET_def lstrip_def)

lemma b58decode_2: "b58decode ''2'' None = Inr [CHR 0x01]"
  by (simp add: b58decode_def DEFAULT_CHARSET_def lstrip_def char_of_def bit_0)

lemma b58decode_11111:
  "b58decode ''11111'' None = Inr [CHR 0x00, CHR 0x00, CHR 0x00, CHR 0x00, CHR 0x00]"
  by (simp add: b58decode_def DEFAULT_CHARSET_def lstrip_def)

lemma b58decode_11112:
  "b58decode ''11112'' None = Inr [CHR 0x00, CHR 0x00, CHR 0x00, CHR 0x00, CHR 0x01]"
  by (simp add: b58decode_def DEFAULT_CHARSET_def lstrip_def char_of_def bit_0)

lemma b58encode_zeros:
  "b58encode [CHR 0x00, CHR 0x00, CHR 0x00, CHR 0x00, CHR 0x00] None = Inr ''11111''"
  by (simp add: b58encode_def DEFAULT_CHARSET_def lstrip_def)

lemma constant_digests_checksum:
  "take 4 (sha256 constant_digests m) = [CHR 0x00, CHR 0x00, CHR 0x00, CHR 0x00]"
  by (simp add: constant_digests_def eval_nat_numeral)

lemma validate_11111:
  "Base58CheckValidator_validate constant_digests \<lparr>currency = bitcoin, address = ''11111''\<rparr>
     = Inr True"
  by (simp add: Base58CheckValidator_validate_decoded [where nets = "[0x00, 0x05, 0x6f, 0xc4]"]
      bitcoin_extras bitcoin_networks b58decode_11111 b58encode_zeros constant_digests_checksum)

section \<open>Base58Check: the claims\<close>

text \<open>
  What the checksum comparison decides, for an address that decodes to \<open>abytes\<close>:
  \<open>validate\<close> returns true only if the first four bytes of the double digest of
  \<open>abytes[:-4]\<close> equal \<open>abytes[-4:]\<close>; when they differ, \<open>validate\<close> returns false
  wherever it reaches the comparison, that is for decoded sequences that have a first
  byte and currencies that have a network entry.
\<close>

lemma checksum_decides:
  assumes "b58decode (address req) (ValidationRequest_extras req) = Inr abytes"
  shows "(Base58CheckValidator_validate H req = Inr True \<longrightarrow>
            take 4 (sha256 H (sha256 H (take (length abytes - 4) abytes)))
              = drop (length abytes - 4) abytes)
       \<and> (abytes \<noteq> [] \<and> networks (currency req) \<noteq> []
            \<and> take 4 (sha256 H (sha256 H (take (length abytes - 4) abytes)))
              \<noteq> drop (length abytes - 4) abytes
          \<longrightarrow> Base58CheckValidator_validate H req = Inr False)"
proof (intro conjI impI)
  assume "Base58CheckValidator_validate H req = Inr True"
  from Base58CheckValidator_validate_True [OF this] assms
  show "take 4 (sha256 H (sha256 H (take (length abytes - 4) abytes)))
          = drop (length abytes - 4) abytes"
    by auto
next
  assume h: "abytes \<noteq> [] \<and> networks (currency req) \<noteq> []
      \<and> take 4 (sha256 H (sha256 H (take (length abytes - 4) abytes)))
        \<noteq> drop (length abytes - 4) abytes"
  then obtain b0 rest where ab: "abytes = b0 # rest"
    by (cases abytes) auto
  from h have nets: "ValidationRequest_networks req
      = Inr (concat (map snd (networks (currency req))))"
    by (simp add: ValidationRequest_networks_nonempty)
  from h show "Base58CheckValidator_validate H req = Inr False"
    using Base58CheckValidator_validate_decoded [OF assms [unfolded ab] nets, of H]
    unfolding ab by auto
qed

lemma checksum_decides_example:
  "take 4 (sha256 constant_digests (sha256 constant_digests
       (take (length [CHR 0x00, CHR 0x00, CHR 0x00, CHR 0x00, CHR 0x00] - 4)
          [CHR 0x00, CHR 0x00, CHR 0x00, CHR 0x00, CHR 0x00])))
     = drop (length [CHR 0x00, CHR 0x00, CHR 0x00, CHR 0x00, CHR 0x00] - 4)
         [CHR 0x00, CHR 0x00, CHR 0x00, CHR 0x00, CHR 0x00]
   \<and> Base58CheckValidator_validate constant_digests
       \<lparr>currency = bitcoin, address = ''11112''\<rparr> = Inr False"
proof -
  have d1: "b58decode (address \<lparr>currency = bitcoin, address = ''11111''\<rparr>)
      (ValidationRequest_extras \<lparr>currency = bitcoin, address = ''11111''\<rparr>)
      = Inr [CHR 0x00, CHR 0x00, CHR 0x00, CHR 0x00, CHR 0x00]"
    by (simp add: bitcoin_extras b58decode_11111)
  have d2: "b58decode (address \<lparr>currency = bitcoin, address = ''11112''\<rparr>)
      (ValidationRequest_extras \<lparr>currency = bitcoin, address = ''11112''\<rparr>)
      = Inr [CHR 0x00, CHR 0x00, CHR 0x00, CHR 0x00, CHR 0x01]"
    by (simp add: bitcoin_extras b58decode_11112)
  have mismatch: "[CHR 0x00, CHR 0x00, CHR 0x00, CHR 0x00, CHR 0x01] \<noteq> []
      \<and> networks (currency \<lparr>currency = bitcoin, address = ''11112''\<rparr>) \<noteq> []
      \<and> take 4 (sha256 constant_digests (sha256 constant_digests
           (take (length [CHR 0x00, CHR 0x00, CHR 0x00, CHR 0x00, CHR 0x01] - 4)
              [CHR 0x00, CHR 0x00, CHR 0x00, CHR 0x00, CHR 0x01])))
        \<noteq> drop (length [CHR 0x00, CHR 0x00, CHR 0x00, CHR 0x00, CHR 0x01] - 4)
            [CHR 0x00, CHR 0x00, CHR 0x00, CHR 0x00, CHR 0x01]"
    by (simp add: bitcoin_def constant_digests_checksum)
  from checksum_decides [OF d1, of constant_digests, THEN conjunct1] validate_11111
  have c1: "take 4 (sha256 constant_digests (sha256 constant_digests
       (take (length [CHR 0x00, CHR 0x00, CHR 0x00, CHR 0x00, CHR 0x00] - 4)
          [CHR 0x00, CHR 0x00, CHR 0x00, CHR 0x00, CHR 0x00])))
     = drop (length [CHR 0x00, CHR 0x00, CHR 0x00, CHR 0x00, CHR 0x00] - 4)
         [CHR 0x00, CHR 0x00, CHR 0x00, CHR 0x00, CHR 0x00]"
    by (rule mp)
  from checksum_decides [OF d2, of constant_digests, THEN conjunct2] mismatch
  have c2: "Base58CheckValidator_validate constant_digests
       \<lparr>currency = bitcoin, address = ''11112''\<rparr> = Inr False"
    by (rule mp)
  from c1 c2 show ?thesis by (rule conjI)
qed

lemma Base58CheckValidator_network_decoded:
  "b58decode (address req) (ValidationRequest_extras req) = Inr (b0 # rest) \<Longrightarrow>
   Base58CheckValidator_network req
     = Inr (network_of_byte (of_char b0) (networks (currency req)))"
  by (simp add: Base58CheckValidator_network_def)

text \<open>
  C3. The claim: for every address that decodes to \<open>abytes\<close>, a checksum that does not
  match makes \<open>validate\<close> return false. The empty address decodes to the empty
  sequence, whose last four bytes are no bytes at all and match no four checksum bytes;
  yet \<open>validate\<close> raises \<open>IndexError\<close> at \<open>abytes[0]\<close> instead of returning
  false. The length comparison of the code, which holds for no length, lets the
  empty address reach that line.
\<close>

theorem empty_address_no_checksum_verdict:
  "b58decode (address \<lparr>currency = bitcoin, address = []\<rparr>)
       (ValidationRequest_extras \<lparr>currency = bitcoin, address = []\<rparr>) = Inr []
   \<and> Base58CheckValidator_validate H \<lparr>currency = bitcoin, address = []\<rparr> = Inl IndexError
   \<and> Base58CheckValidator_validate H \<lparr>currency = bitcoin, address = []\<rparr> \<noteq> Inr False"
proof -
  have dec: "b58decode (address \<lparr>currency = bitcoin, address = []\<rparr>)
       (ValidationRequest_extras \<lparr>currency = bitcoin, address = []\<rparr>) = Inr []"
    by (simp add: bitcoin_extras b58decode_empty)
  from Base58CheckValidator_validate_empty [OF dec, of H] dec
  show ?thesis by simp
qed

text \<open>
  C4. Round trip: when \<open>validate\<close> returns true, the address decodes, and encoding the
  decoded bytes with the same character set gives back the address.
\<close>

theorem validate_true_roundtrip:
  assumes "Base58CheckValidator_validate H req = Inr True"
  shows "\<exists>abytes. b58decode (address req) (ValidationRequest_extras req) = Inr abytes
           \<and> b58encode abytes (ValidationRequest_extras req) = Inr (address req)"
  using Base58CheckValidator_validate_True [OF assms] by blast

theorem validate_true_roundtrip_witness:
  "Base58CheckValidator_validate constant_digests \<lparr>currency = bitcoin, address = ''11111''\<rparr>
     = Inr True
   \<and> (\<exists>abytes. b58decode ''11111'' None = Inr abytes \<and> b58encode abytes None = Inr ''11111'')"
  using validate_true_roundtrip [OF validate_11111] validate_11111
  by (simp add: bitcoin_extras)

text \<open>
  What the version byte decides, for an address that decodes: \<open>validate\<close> returns true
  only if the decoded sequence has a first byte and that byte is in
  \<open>request.networks\<close>; when the first decoded byte is not in \<open>request.networks\<close>,
  \<open>validate\<close> returns false; and \<open>request.networks\<close> is the concatenation of the
  version bytes of all networks of the currency.
\<close>

lemma version_byte_gate:
  assumes "b58decode (address req) (ValidationRequest_extras req) = Inr abytes"
  shows "(Base58CheckValidator_validate H req = Inr True \<longrightarrow>
            (\<exists>b0 rest. abytes = b0 # rest
               \<and> of_char b0 \<in> set (concat (map snd (networks (currency req))))))
       \<and> (\<forall>b0 rest nets. abytes = b0 # rest \<and> ValidationRequest_networks req = Inr nets
              \<and> of_char b0 \<notin> set nets
            \<longrightarrow> Base58CheckValidator_validate H req = Inr False)
       \<and> (\<forall>nets. ValidationRequest_networks req = Inr nets
            \<longrightarrow> nets = concat (map snd (networks (currency req))))"
proof (intro conjI impI allI)
  assume "Base58CheckValidator_validate H req = Inr True"
  from Base58CheckValidator_validate_True [OF this] assms
  show "\<exists>b0 rest. abytes = b0 # rest
      \<and> of_char b0 \<in> set (concat (map snd (networks (currency req))))"
    by (auto dest: ValidationRequest_networks_concat)
next
  fix b0 rest nets
  assume h: "abytes = b0 # rest \<and> ValidationRequest_networks req = Inr nets
      \<and> of_char b0 \<notin> set nets"
  then have "b58decode (address req) (ValidationRequest_extras req) = Inr (b0 # rest)"
    using assms by simp
  from Base58CheckValidator_validate_decoded [OF this, of nets H] h
  show "Base58CheckValidator_validate H req = Inr False"
    by simp
next
  fix nets
  assume "ValidationRequest_networks req = Inr nets"
  then show "nets = concat (map snd (networks (currency req)))"
    by (rule ValidationRequest_networks_concat)
qed

lemma version_byte_gate_example:
  "(\<exists>b0 rest. [CHR 0x00, CHR 0x00, CHR 0x00, CHR 0x00, CHR 0x00] = b0 # rest
      \<and> of_char b0 \<in> set (concat (map snd (networks bitcoin))))
   \<and> Base58CheckValidator_validate constant_digests
        \<lparr>currency = bitcoin, address = ''2''\<rparr> = Inr False
   \<and> [0x00, 0x05, 0x6f, 0xc4] = concat (map snd (networks bitcoin))"
proof -
  let ?r1 = "\<lparr>currency = bitcoin, address = ''11111''\<rparr>"
  let ?r2 = "\<lparr>currency = bitcoin, address = ''2''\<rparr>"
  have d1: "b58decode (address ?r1) (ValidationRequest_extras ?r1)
      = Inr [CHR 0x00, CHR 0x00, CHR 0x00, CHR 0x00, CHR 0x00]"
    by (simp add: bitcoin_extras b58decode_11111)
  have d2: "b58decode (address ?r2) (ValidationRequest_extras ?r2) = Inr [CHR 0x01]"
    by (simp add: bitcoin_extras b58decode_2)
  have n2: "ValidationRequest_networks ?r2 = Inr [0x00, 0x05, 0x6f, 0xc4]"
    by (rule bitcoin_networks)
  have notin: "of_char (CHR 0x01) \<notin> set [0x00, 0x05, 0x6f, 0xc4 :: int]"
    by simp
  from version_byte_gate [OF d1, of constant_digests, THEN conjunct1] validate_11111
  have c1: "\<exists>b0 rest. [CHR 0x00, CHR 0x00, CHR 0x00, CHR 0x00, CHR 0x00] = b0 # rest
      \<and> of_char b0 \<in> set (concat (map snd (networks bitcoin)))"
    by simp
  from version_byte_gate [OF d2, of constant_digests, THEN conjunct2, THEN conjunct1] n2 notin
  have c2: "Base58CheckValidator_validate constant_digests ?r2 = Inr False"
    by blast
  from version_byte_gate [OF d2, of constant_digests, THEN conjunct2, THEN conjunct2] n2
  have c3: "[0x00, 0x05, 0x6f, 0xc4] = concat (map snd (networks bitcoin))"
    by simp
  from c1 c2 c3 show ?thesis by blast
qed

text \<open>
  C9. The claim: for every address that decodes, \<open>validate\<close> returns false unless the
  first decoded byte is in \<open>request.networks\<close>. The empty address decodes to the empty
  sequence, which has no first byte to be in \<open>request.networks\<close> (for bitcoin the
  bytes 0, 5, 111 and 196); yet \<open>validate\<close> raises \<open>IndexError\<close> at \<open>abytes[0]\<close>
  instead of returning false. The length comparison of the code, which holds for no
  length, lets the empty address reach that line.
\<close>

theorem empty_address_no_version_byte_verdict:
  "b58decode [] None = Inr []
   \<and> ValidationRequest_extras \<lparr>currency = bitcoin, address = []\<rparr> = None
   \<and> ValidationRequest_networks \<lparr>currency = bitcoin, address = []\<rparr>
       = Inr [0x00, 0x05, 0x6f, 0xc4]
   \<and> Base58CheckValidator_validate H \<lparr>currency = bitcoin, address = []\<rparr> = Inl IndexError"
proof -
  have "Base58CheckValidator_validate H \<lparr>currency = bitcoin, address = []\<rparr> = Inl IndexError"
    by (rule Base58CheckValidator_validate_empty) (simp add: bitcoin_extras b58decode_empty)
  with b58decode_empty bitcoin_extras [of "[]"] bitcoin_networks [of "[]"]
  show ?thesis by simp
qed

text \<open>
  C10. For a currency validated by \<open>Base58CheckValidator\<close>: when the address decodes
  and its first decoded byte is a version byte of none of the currency's networks, the
  \<open>network\<close> property returns \<open>None\<close>, the constructor of \<open>ValidationResult\<close>
  rejects \<open>None\<close> with \<open>TypeError\<close>, and \<open>execute\<close> raises \<open>TypeError\<close>
  instead of returning a result.
\<close>

theorem unknown_version_byte_raises:
  assumes "Validators_get validators (validator (currency req)) = Some cls"
    and "class_impl cls = Base58Check_impl"
    and "b58decode (address req) (ValidationRequest_extras req) = Inr (b0 # rest)"
    and "\<forall>nw \<in> set (networks (currency req)). of_char b0 \<notin> set (snd nw)"
  shows "Base58CheckValidator_network req = Inr None
       \<and> ValidationResult_init n t a v None = Inl TypeError
       \<and> execute H validators req = Inl TypeError"
proof -
  from assms(4) have notin: "of_char b0 \<notin> set (concat (map snd (networks (currency req))))"
    by auto
  then have nw: "Base58CheckValidator_network req = Inr None"
    using Base58CheckValidator_network_decoded [OF assms(3)]
    by (simp add: network_of_byte_None_iff)
  have init: "\<And>n t a v. ValidationResult_init n t a v None = Inl TypeError"
    by (simp add: ValidationResult_init_def)
  have "execute H validators req = Inl TypeError"
  proof (cases "networks (currency req) = []")
    case True
    then have "Base58CheckValidator_validate H req = Inl TypeError"
      using assms(3)
      by (simp add: Base58CheckValidator_validate_def length_gate_dead
          ValidationRequest_networks_empty)
    then show ?thesis
      by (simp add: execute_Base58Check [OF assms(1,2)])
  next
    case False
    then have "ValidationRequest_networks req
        = Inr (concat (map snd (networks (currency req))))"
      by (rule ValidationRequest_networks_nonempty)
    from Base58CheckValidator_validate_decoded [OF assms(3) this, of H] notin
    have "Base58CheckValidator_validate H req = Inr False"
      by simp
    then show ?thesis
      by (simp add: execute_Base58Check [OF assms(1,2)] nw init)
  qed
  with nw init show ?thesis by simp
qed

theorem unknown_version_byte_raises_witness:
  "Base58CheckValidator_network \<lparr>currency = bitcoin, address = ''2''\<rparr> = Inr None
   \<and> execute constant_digests module_validators \<lparr>currency = bitcoin, address = ''2''\<rparr>
       = Inl TypeError"
proof -
  let ?r = "\<lparr>currency = bitcoin, address = ''2''\<rparr>"
  have reg: "Validators_get module_validators (validator (currency ?r))
      = Some Base58CheckValidator"
    by (simp add: module_validators_Base58Check bitcoin_def)
  have impl: "class_impl Base58CheckValidator = Base58Check_impl"
    by (simp add: Base58CheckValidator_def)
  have dec: "b58decode (address ?r) (ValidationRequest_extras ?r) = Inr (CHR 0x01 # [])"
    by (simp add: bitcoin_extras b58decode_2)
  have none: "\<forall>nw \<in> set (networks (currency ?r)). of_char (CHR 0x01) \<notin> set (snd nw)"
    by (simp add: bitcoin_def)
  from unknown_version_byte_raises [OF reg impl dec none, of undefined undefined undefined undefined constant_digests]
  show ?thesis by simp
qed

section \<open>The entrypoint on Base58Check currencies\<close>

lemma validate_execute:
  "ValidationRequest_init cat cur a = Inr req \<Longrightarrow>
   validate H cat cur a = execute H module_validators req"
  by (simp add: validate_def)

lemma execute_module_Base58Check:
  assumes "validator (currency req) = ''Base58Check''"
  shows "execute H module_validators req =
     (case Base58CheckValidator_validate H req of
        Inl e \<Rightarrow> Inl e
      | Inr v \<Rightarrow>
          (case Base58CheckValidator_network req of
             Inl e \<Rightarrow> Inl e
           | Inr nw \<Rightarrow>
               ValidationResult_init (name (currency req)) (ticker (currency req))
                 (address req) v nw))"
proof (rule execute_Base58Check)
  show "Validators_get module_validators (validator (currency req)) = Some Base58CheckValidator"
    using assms by (simp add: module_validators_Base58Check)
  show "class_impl Base58CheckValidator = Base58Check_impl"
    by (simp add: Base58CheckValidator_def)
qed

lemma btc_request:
  "ValidationRequest_init Currencies_get ''btc'' (Bytes a) = Inr \<lparr>currency = bitcoin, address = a\<rparr>"
  by (simp add: ValidationRequest_init_def Currencies_get_def)

lemma bitcoin_validator: "validator (currency \<lparr>currency = bitcoin, address = a\<rparr>) = ''Base58Check''"
  by (simp add: bitcoin_def)

text \<open>
  C1. The claim: a malformed address, be it a base-58 decoding failure or a checksum
  failure, always yields a normally returned result with \<open>valid = False\<close>. The address
  \<open>0\<close> holds a character outside the base-58 alphabet; decoding it fails with
  \<open>ValueError\<close>, and the entrypoint raises that \<open>ValueError\<close> instead of returning
  a result, against the docstring of \<open>validate\<close> (return True if valid, else False)
  and unlike the paths of \<open>validate\<close> that answer a bad address with false.
\<close>

theorem decoding_failure_is_raised:
  "b58decode ''0'' None = Inl ValueError
   \<and> validate constant_digests Currencies_get ''btc'' (Bytes ''0'') = Inl ValueError"
proof -
  have "Base58CheckValidator_validate constant_digests \<lparr>currency = bitcoin, address = ''0''\<rparr>
      = Inl ValueError"
    by (rule Base58CheckValidator_validate_decode_error) (simp add: bitcoin_extras b58decode_0)
  then have "validate constant_digests Currencies_get ''btc'' (Bytes ''0'') = Inl ValueError"
    by (simp add: validate_execute [OF btc_request]
        execute_module_Base58Check [OF bitcoin_validator])
  with b58decode_0 show ?thesis by simp
qed

text \<open>
  What the entrypoint does on a currency validated by \<open>Base58CheckValidator\<close>: when
  decoding the address fails, it raises the decoder's error; when the address decodes and
  its first byte is a version byte of a network of the currency, it returns a result,
  whose \<open>valid\<close> is what \<open>validate\<close> returned and is false when the checksum does
  not match, and whose \<open>network\<close> is the label of the first such network.
\<close>

lemma validate_base58_outcomes:
  assumes "ValidationRequest_init cat cur a = Inr req"
    and "validator (currency req) = ''Base58Check''"
  shows "(\<forall>e. b58decode (address req) (ValidationRequest_extras req) = Inl e
            \<longrightarrow> validate H cat cur a = Inl e)
       \<and> (\<forall>b0 rest label.
            b58decode (address req) (ValidationRequest_extras req) = Inr (b0 # rest)
            \<and> network_of_byte (of_char b0) (networks (currency req)) = Some label
            \<longrightarrow> (\<exists>v. Base58CheckValidator_validate H req = Inr v
                   \<and> validate H cat cur a
                       = Inr \<lparr>res_name = name (currency req), res_ticker = ticker (currency req),
                              res_address = address req, valid = v, network = label\<rparr>
                   \<and> (take 4 (sha256 H (sha256 H (take (length (b0 # rest) - 4) (b0 # rest))))
                         \<noteq> drop (length (b0 # rest) - 4) (b0 # rest) \<longrightarrow> \<not> v)))"
proof (intro conjI allI impI)
  fix e
  assume "b58decode (address req) (ValidationRequest_extras req) = Inl e"
  then have "Base58CheckValidator_validate H req = Inl e"
    by (rule Base58CheckValidator_validate_decode_error)
  then show "validate H cat cur a = Inl e"
    by (simp add: validate_execute [OF assms(1)] execute_module_Base58Check [OF assms(2)])
next
  fix b0 rest label
  assume h: "b58decode (address req) (ValidationRequest_extras req) = Inr (b0 # rest)
      \<and> network_of_byte (of_char b0) (networks (currency req)) = Some label"
  then have dec: "b58decode (address req) (ValidationRequest_extras req) = Inr (b0 # rest)"
    and lab: "network_of_byte (of_char b0) (networks (currency req)) = Some label"
    by simp_all
  from lab have "networks (currency req) \<noteq> []"
    by (rule network_of_byte_Some_nonempty)
  then have nets: "ValidationRequest_networks req
      = Inr (concat (map snd (networks (currency req))))"
    by (rule ValidationRequest_networks_nonempty)
  from lab have mem: "of_char b0 \<in> set (concat (map snd (networks (currency req))))"
    using network_of_byte_None_iff [of "of_char b0" "networks (currency req)"] by auto
  from b58encode_ok [OF b58decode_ok_charset [OF dec]]
  obtain enc where enc: "b58encode (b0 # rest) (ValidationRequest_extras req) = Inr enc"
    by blast
  let ?v = "drop (length (b0 # rest) - 4) (b0 # rest)
        = take 4 (sha256 H (sha256 H (take (length (b0 # rest) - 4) (b0 # rest))))
      \<and> address req = enc"
  have v: "Base58CheckValidator_validate H req = Inr ?v"
    using Base58CheckValidator_validate_decoded [OF dec nets, of H] mem enc by auto
  have nw: "Base58CheckValidator_network req = Inr (Some label)"
    using Base58CheckValidator_network_decoded [OF dec] lab by simp
  have res: "validate H cat cur a
      = Inr \<lparr>res_name = name (currency req), res_ticker = ticker (currency req),
             res_address = address req, valid = ?v, network = label\<rparr>"
    by (simp add: validate_execute [OF assms(1)] execute_module_Base58Check [OF assms(2)]
        v nw ValidationResult_init_def)
  show "\<exists>v. Base58CheckValidator_validate H req = Inr v
      \<and> validate H cat cur a
          = Inr \<lparr>res_name = name (currency req), res_ticker = ticker (currency req),
                 res_address = address req, valid = v, network = label\<rparr>
      \<and> (take 4 (sha256 H (sha256 H (take (length (b0 # rest) - 4) (b0 # rest))))
            \<noteq> drop (length (b0 # rest) - 4) (b0 # rest) \<longrightarrow> \<not> v)"
    using v res by (intro exI [of _ ?v]) auto
qed

lemma validate_base58_outcomes_example:
  "validate constant_digests Currencies_get ''btc'' (Bytes ''0'') = Inl ValueError
   \<and> (\<exists>v. validate constant_digests Currencies_get ''btc'' (Bytes ''11112'')
         = Inr \<lparr>res_name = ''bitcoin'', res_ticker = ''btc'', res_address = ''11112'',
                valid = v, network = ''main''\<rparr> \<and> \<not> v)"
proof -
  let ?r0 = "\<lparr>currency = bitcoin, address = ''0''\<rparr>"
  let ?r1 = "\<lparr>currency = bitcoin, address = ''11112''\<rparr>"
  have d0: "b58decode (address ?r0) (ValidationRequest_extras ?r0) = Inl ValueError"
    by (simp add: bitcoin_extras b58decode_0)
  have d1: "b58decode (address ?r1) (ValidationRequest_extras ?r1)
        = Inr (CHR 0x00 # [CHR 0x00, CHR 0x00, CHR 0x00, CHR 0x01])
      \<and> network_of_byte (of_char (CHR 0x00)) (networks (currency ?r1)) = Some ''main''"
  proof
    show "b58decode (address ?r1) (ValidationRequest_extras ?r1)
        = Inr (CHR 0x00 # [CHR 0x00, CHR 0x00, CHR 0x00, CHR 0x01])"
      by (simp add: bitcoin_extras b58decode_11112)
    show "network_of_byte (of_char (CHR 0x00)) (networks (currency ?r1)) = Some ''main''"
      by (simp add: bitcoin_def)
  qed
  have mismatch: "take 4 (sha256 constant_digests (sha256 constant_digests
        (take (length (CHR 0x00 # [CHR 0x00, CHR 0x00, CHR 0x00, CHR 0x01]) - 4)
           (CHR 0x00 # [CHR 0x00, CHR 0x00, CHR 0x00, CHR 0x01]))))
      \<noteq> drop (length (CHR 0x00 # [CHR 0x00, CHR 0x00, CHR 0x00, CHR 0x01]) - 4)
          (CHR 0x00 # [CHR 0x00, CHR 0x00, CHR 0x00, CHR 0x01])"
    by (simp add: constant_digests_checksum)
  have c1: "validate constant_digests Currencies_get ''btc'' (Bytes ''0'') = Inl ValueError"
    using validate_base58_outcomes [OF btc_request bitcoin_validator, of "''0''" constant_digests,
        THEN conjunct1] d0
    by blast
  have c2: "\<exists>v. validate constant_digests Currencies_get ''btc'' (Bytes ''11112'')
         = Inr \<lparr>res_name = ''bitcoin'', res_ticker = ''btc'', res_address = ''11112'',
                valid = v, network = ''main''\<rparr> \<and> \<not> v"
  proof -
    from validate_base58_outcomes [OF btc_request bitcoin_validator, of "''11112''"
        constant_digests, THEN conjunct2, rule_format, OF d1]
    obtain v where "validate constant_digests Currencies_get ''btc'' (Bytes ''11112'')
          = Inr \<lparr>res_name = name (currency ?r1), res_ticker = ticker (currency ?r1),
                 res_address = address ?r1, valid = v, network = ''main''\<rparr>"
      and "take 4 (sha256 constant_digests (sha256 constant_digests
        (take (length (CHR 0x00 # [CHR 0x00, CHR 0x00, CHR 0x00, CHR 0x01]) - 4)
           (CHR 0x00 # [CHR 0x00, CHR 0x00, CHR 0x00, CHR 0x01]))))
      \<noteq> drop (length (CHR 0x00 # [CHR 0x00, CHR 0x00, CHR 0x00, CHR 0x01]) - 4)
          (CHR 0x00 # [CHR 0x00, CHR 0x00, CHR 0x00, CHR 0x01]) \<longrightarrow> \<not> v"
      by blast
    with mismatch show ?thesis
      by (intro exI [of _ v]) (simp add: bitcoin_def)
  qed
  from c1 c2 show ?thesis by (rule conjI)
qed

section \<open>Ethereum: helper facts\<close>

lemma lower_hex_ascii: "lower_hex c \<Longrightarrow> of_char c < (128 :: nat)"
  by (auto simp: lower_hex_def)

lemma upper_hex_ascii: "upper_hex c \<Longrightarrow> of_char c < (128 :: nat)"
  by (auto simp: upper_hex_def)

lemma hex_is_ascii: "list_all lower_hex s \<or> list_all upper_hex s \<Longrightarrow> is_ascii s"
  by (auto simp: is_ascii_def list_all_iff intro: lower_hex_ascii upper_hex_ascii)

lemma is_ascii_0x: "is_ascii s \<Longrightarrow> is_ascii (''0x'' @ s)"
  by (simp add: is_ascii_def)

lemma match_hex40_exact: "length s = 40 \<Longrightarrow> list_all digit s \<Longrightarrow> match_hex40 digit s"
  by (simp add: match_hex40_def)

lemma pattern_match_plain:
  "length s = 40 \<Longrightarrow> list_all digit s \<Longrightarrow> pattern_match digit s"
  by (simp add: pattern_match_def match_hex40_exact)

lemma pattern_match_0x:
  "length s = 40 \<Longrightarrow> list_all digit s \<Longrightarrow> pattern_match digit (''0x'' @ s)"
  by (simp add: pattern_match_def match_hex40_exact)

lemma pattern_match_long: "pattern_match digit s \<Longrightarrow> 40 \<le> length s"
  by (auto simp: pattern_match_def match_hex40_def)

lemma EthereumValidator_validate_checksum_path:
  assumes "is_ascii (address req)"
    and "\<not> pattern_match lower_hex (address req)"
    and "\<not> pattern_match upper_hex (address req)"
  shows "EthereumValidator_validate H req =
     check_case (keccak_256_hexdigest H (map lower (lstrip ''0x'' (address req))))
       (lstrip ''0x'' (address req))"
  using assms by (simp add: EthereumValidator_validate_def Let_def)

text \<open>What the loop returns, position by position.\<close>

lemma check_case_positions:
  assumes "\<forall>d \<in> set addr_hash. \<exists>v. int16 d = Inr v"
  shows "check_case addr_hash addr =
     (if \<exists>i < min (length addr) (length addr_hash).
           \<exists>v. int16 (addr_hash ! i) = Inr v \<and> \<not> spec_case_ok v (addr ! i)
      then Inr False
      else if length addr \<le> length addr_hash then Inr True
      else Inl IndexError)"
proof -
  define bad where "bad = (\<lambda>h a. \<exists>i < min (length a) (length h).
      \<exists>v. int16 (h ! i) = Inr v \<and> \<not> spec_case_ok v (a ! i))"
  have "check_case addr_hash addr =
     (if bad addr_hash addr then Inr False
      else if length addr \<le> length addr_hash then Inr True
      else Inl IndexError)"
    using assms
  proof (induction addr_hash addr rule: check_case.induct)
    case (1 addr_hash)
    then show ?case by (simp add: bad_def)
  next
    case (2 c addr)
    then show ?case by (simp add: bad_def)
  next
    case (3 d addr_hash c addr)
    from "3.prems" obtain v where v: "int16 d = Inr v"
      by auto
    have split: "bad (d # addr_hash) (c # addr) \<longleftrightarrow> \<not> spec_case_ok v c \<or> bad addr_hash addr"
    proof
      assume "bad (d # addr_hash) (c # addr)"
      then obtain i w where i: "i < min (length (c # addr)) (length (d # addr_hash))"
        and w: "int16 ((d # addr_hash) ! i) = Inr w" "\<not> spec_case_ok w ((c # addr) ! i)"
        unfolding bad_def by blast
      show "\<not> spec_case_ok v c \<or> bad addr_hash addr"
      proof (cases i)
        case 0
        with w v show ?thesis by simp
      next
        case (Suc j)
        with i w have "j < min (length addr) (length addr_hash)"
          "int16 (addr_hash ! j) = Inr w" "\<not> spec_case_ok w (addr ! j)"
          by simp_all
        then have "bad addr_hash addr"
          unfolding bad_def by blast
        then show ?thesis ..
      qed
    next
      assume "\<not> spec_case_ok v c \<or> bad addr_hash addr"
      then show "bad (d # addr_hash) (c # addr)"
      proof
        assume "\<not> spec_case_ok v c"
        with v have "0 < min (length (c # addr)) (length (d # addr_hash))
            \<and> (\<exists>w. int16 ((d # addr_hash) ! 0) = Inr w \<and> \<not> spec_case_ok w ((c # addr) ! 0))"
          by simp
        then show ?thesis
          unfolding bad_def by blast
      next
        assume "bad addr_hash addr"
        then obtain j w where "j < min (length addr) (length addr_hash)"
          "int16 (addr_hash ! j) = Inr w" "\<not> spec_case_ok w (addr ! j)"
          unfolding bad_def by blast
        then have "Suc j < min (length (c # addr)) (length (d # addr_hash))
            \<and> (\<exists>w. int16 ((d # addr_hash) ! Suc j) = Inr w
                  \<and> \<not> spec_case_ok w ((c # addr) ! Suc j))"
          by simp
        then show ?thesis
          unfolding bad_def by blast
      qed
    qed
    show ?case
    proof (cases "spec_case_ok v c")
      case False
      then have "check_case (d # addr_hash) (c # addr) = Inr False"
        using v by (auto simp: spec_case_ok_def)
      moreover from False split have "bad (d # addr_hash) (c # addr)"
        by simp
      ultimately show ?thesis by simp
    next
      case True
      then have ok: "\<not> ((v > 7 \<and> upper c \<noteq> c) \<or> (v \<le> 7 \<and> lower c \<noteq> c))"
        by (auto simp: spec_case_ok_def)
      then have step: "check_case (d # addr_hash) (c # addr) = check_case addr_hash addr"
        using v by auto
      from "3.prems" have "\<forall>d \<in> set addr_hash. \<exists>v. int16 d = Inr v"
        by simp
      from "3.IH" [OF v ok this]
      have ih: "check_case addr_hash addr =
          (if bad addr_hash addr then Inr False
           else if length addr \<le> length addr_hash then Inr True
           else Inl IndexError)" .
      from True split have same: "bad (d # addr_hash) (c # addr) = bad addr_hash addr"
        by simp
      show ?thesis
        unfolding step ih same by simp
    qed
  qed
  then show ?thesis
    unfolding bad_def .
qed


lemma lstrip_split: "\<exists>p. s = p @ lstrip cs s \<and> set p \<subseteq> set cs"
proof (intro exI conjI)
  show "s = takeWhile (\<lambda>c. c \<in> set cs) s @ lstrip cs s"
    by (simp add: lstrip_def)
  show "set (takeWhile (\<lambda>c. c \<in> set cs) s) \<subseteq> set cs"
    by (auto dest: set_takeWhileD)
qed

lemma lstrip_head: "lstrip cs s = [] \<or> hd (lstrip cs s) \<notin> set cs"
  using hd_dropWhile [of "\<lambda>c. c \<in> set cs" s] by (auto simp: lstrip_def)

lemma lstrip_longest:
  assumes "s = p @ t" and "length (lstrip cs s) < length t"
  shows "t \<noteq> [] \<and> hd t \<in> set cs"
proof -
  let ?P = "\<lambda>c. c \<in> set cs"
  have len: "length s = length (takeWhile ?P s) + length (lstrip cs s)"
    by (metis lstrip_def length_append takeWhile_dropWhile_id)
  from assms have lt: "length p < length (takeWhile ?P s)"
    using len by simp
  from assms(2) have ne: "t \<noteq> []"
    by auto
  then have "hd t = s ! length p"
    using assms(1) by (simp add: hd_conv_nth nth_append)
  also have "\<dots> = takeWhile ?P s ! length p"
    using lt by (simp add: takeWhile_nth)
  finally have "hd t \<in> set (takeWhile ?P s)"
    using lt by simp
  then have "hd t \<in> set cs"
    by (auto dest: set_takeWhileD)
  with ne show ?thesis by simp
qed

lemma constant_digests_hex:
  "\<forall>d \<in> set (keccak_256_hexdigest constant_digests m). \<exists>v. int16 d = Inr v"
  by (simp add: constant_digests_def int16_def)

lemma constant_digests_keccak:
  "keccak_256_hexdigest constant_digests m
     = ''0f0f0f0f0f0f0f0f0f0f0f0f0f0f0f0f0f0f0f0f0f0f0f0f0f0f0f0f0f0f0f0f''"
  by (simp add: constant_digests_def)

lemma short_not_pattern: "length s < 40 \<Longrightarrow> \<not> pattern_match digit s"
  using pattern_match_long [of digit s] by auto

section \<open>Ethereum: the claims\<close>

text \<open>
  C5. An address of exactly forty hexadecimal digits, all of them lowercase or all of
  them uppercase, with or without the prefix \<open>0x\<close>, is valid, whatever the digest
  function is.
\<close>

theorem non_checksummed_accepted:
  assumes "length s = 40"
    and "list_all lower_hex s \<or> list_all upper_hex s"
    and "address req = s \<or> address req = ''0x'' @ s"
  shows "EthereumValidator_validate H req = Inr True"
proof -
  from assms(2) have "is_ascii s"
    by (rule hex_is_ascii)
  with assms(3) have ascii: "is_ascii (address req)"
    using is_ascii_0x [of s] by auto
  from assms have "pattern_match lower_hex (address req) \<or> pattern_match upper_hex (address req)"
    using pattern_match_plain [of s] pattern_match_0x [of s] by auto
  with ascii show ?thesis
    by (simp add: EthereumValidator_validate_def)
qed

theorem non_checksummed_accepted_witness:
  "EthereumValidator_validate constant_digests
     \<lparr>currency = ethereum, address = ''0x5aaeb6053f3e94c9b9a09f33669435e7ef1beaed''\<rparr> = Inr True
   \<and> EthereumValidator_validate constant_digests
     \<lparr>currency = ethereum, address = ''5AAEB6053F3E94C9B9A09F33669435E7EF1BEAED''\<rparr> = Inr True"
proof -
  have l: "length ''5aaeb6053f3e94c9b9a09f33669435e7ef1beaed'' = 40"
    "length ''5AAEB6053F3E94C9B9A09F33669435E7EF1BEAED'' = 40"
    by simp_all
  have h1: "list_all lower_hex ''5aaeb6053f3e94c9b9a09f33669435e7ef1beaed''
      \<or> list_all upper_hex ''5aaeb6053f3e94c9b9a09f33669435e7ef1beaed''"
    by (simp add: lower_hex_def)
  have h2: "list_all lower_hex ''5AAEB6053F3E94C9B9A09F33669435E7EF1BEAED''
      \<or> list_all upper_hex ''5AAEB6053F3E94C9B9A09F33669435E7EF1BEAED''"
    by (simp add: upper_hex_def)
  have a1: "address \<lparr>currency = ethereum,
        address = ''0x5aaeb6053f3e94c9b9a09f33669435e7ef1beaed''\<rparr>
        = ''5aaeb6053f3e94c9b9a09f33669435e7ef1beaed''
      \<or> address \<lparr>currency = ethereum,
        address = ''0x5aaeb6053f3e94c9b9a09f33669435e7ef1beaed''\<rparr>
        = ''0x'' @ ''5aaeb6053f3e94c9b9a09f33669435e7ef1beaed''"
    by simp
  have a2: "address \<lparr>currency = ethereum,
        address = ''5AAEB6053F3E94C9B9A09F33669435E7EF1BEAED''\<rparr>
        = ''5AAEB6053F3E94C9B9A09F33669435E7EF1BEAED''
      \<or> address \<lparr>currency = ethereum,
        address = ''5AAEB6053F3E94C9B9A09F33669435E7EF1BEAED''\<rparr>
        = ''0x'' @ ''5AAEB6053F3E94C9B9A09F33669435E7EF1BEAED''"
    by simp
  from non_checksummed_accepted [OF l(1) h1 a1, of constant_digests]
    non_checksummed_accepted [OF l(2) h2 a2, of constant_digests]
  show ?thesis by (rule conjI)
qed

text \<open>
  The checksum path on an ASCII address that matches neither pattern, with \<open>addr\<close> the
  stripped address and \<open>addr_hash\<close> the hexadecimal digest of its lowercase form:
  \<open>validate\<close> returns true exactly when every position of \<open>addr\<close> has a digit of
  the digest and satisfies the rule of the spec; and a position that breaks the rule
  makes \<open>validate\<close> return false.
\<close>

lemma checksum_case_rule:
  assumes "is_ascii (address req)"
    and "\<not> pattern_match lower_hex (address req)"
    and "\<not> pattern_match upper_hex (address req)"
    and "addr = lstrip ''0x'' (address req)"
    and "addr_hash = keccak_256_hexdigest H (map lower addr)"
    and "\<forall>d \<in> set addr_hash. \<exists>v. int16 d = Inr v"
  shows "(EthereumValidator_validate H req = Inr True \<longleftrightarrow>
            length addr \<le> length addr_hash
            \<and> (\<forall>i < length addr. \<forall>v. int16 (addr_hash ! i) = Inr v
                  \<longrightarrow> spec_case_ok v (addr ! i)))
       \<and> ((\<exists>i < length addr. i < length addr_hash
              \<and> (\<exists>v. int16 (addr_hash ! i) = Inr v \<and> \<not> spec_case_ok v (addr ! i)))
            \<longrightarrow> EthereumValidator_validate H req = Inr False)"
proof -
  have run: "EthereumValidator_validate H req = check_case addr_hash addr"
    using EthereumValidator_validate_checksum_path [OF assms(1-3), of H] assms(4,5)
    by simp
  note pos = check_case_positions [OF assms(6), of addr]
  have a: "EthereumValidator_validate H req = Inr True \<longleftrightarrow>
            length addr \<le> length addr_hash
            \<and> (\<forall>i < length addr. \<forall>v. int16 (addr_hash ! i) = Inr v
                  \<longrightarrow> spec_case_ok v (addr ! i))"
    unfolding run pos by (auto simp: min_def split: if_splits)
  have b: "(\<exists>i < length addr. i < length addr_hash
              \<and> (\<exists>v. int16 (addr_hash ! i) = Inr v \<and> \<not> spec_case_ok v (addr ! i)))
            \<longrightarrow> EthereumValidator_validate H req = Inr False"
    unfolding run pos by auto
  from a b show ?thesis by (rule conjI)
qed


lemma checksum_case_rule_example:
  "EthereumValidator_validate constant_digests \<lparr>currency = ethereum, address = ''0xaB''\<rparr>
     = Inr True
   \<and> EthereumValidator_validate constant_digests \<lparr>currency = ethereum, address = ''0xab''\<rparr>
     = Inr False"
proof -
  let ?h = "''0f0f0f0f0f0f0f0f0f0f0f0f0f0f0f0f0f0f0f0f0f0f0f0f0f0f0f0f0f0f0f0f''"
  let ?r1 = "\<lparr>currency = ethereum, address = ''0xaB''\<rparr>"
  let ?r2 = "\<lparr>currency = ethereum, address = ''0xab''\<rparr>"
  have hex: "\<forall>d \<in> set ?h. \<exists>v. int16 d = Inr v"
    using constant_digests_hex [of "[]"] unfolding constant_digests_keccak .
  have ascii1: "is_ascii (address ?r1)" and ascii2: "is_ascii (address ?r2)"
    by (simp_all add: is_ascii_def)
  have np1: "\<not> pattern_match lower_hex (address ?r1)" "\<not> pattern_match upper_hex (address ?r1)"
    by (rule short_not_pattern, simp)+
  have np2: "\<not> pattern_match lower_hex (address ?r2)" "\<not> pattern_match upper_hex (address ?r2)"
    by (rule short_not_pattern, simp)+
  have addr1: "''aB'' = lstrip ''0x'' (address ?r1)" and addr2: "''ab'' = lstrip ''0x'' (address ?r2)"
    by (simp_all add: lstrip_def)
  have hash1: "?h = keccak_256_hexdigest constant_digests (map lower ''aB'')"
    and hash2: "?h = keccak_256_hexdigest constant_digests (map lower ''ab'')"
    by (simp_all only: constant_digests_keccak)
  have ok: "length ''aB'' \<le> length ?h
      \<and> (\<forall>i < length ''aB''. \<forall>v. int16 (?h ! i) = Inr v \<longrightarrow> spec_case_ok v (''aB'' ! i))"
    by (simp add: All_less_Suc int16_def spec_case_ok_def upper_def lower_def)
  have bad: "\<exists>i < length ''ab''. i < length ?h
      \<and> (\<exists>v. int16 (?h ! i) = Inr v \<and> \<not> spec_case_ok v (''ab'' ! i))"
    by (rule exI [of _ 1]) (simp add: int16_def spec_case_ok_def upper_def)
  from checksum_case_rule [OF ascii1 np1 addr1 hash1 hex, THEN conjunct1] ok
  have c1: "EthereumValidator_validate constant_digests ?r1 = Inr True"
    by (rule iffD2)
  from checksum_case_rule [OF ascii2 np2 addr2 hash2 hex, THEN conjunct2] bad
  have c2: "EthereumValidator_validate constant_digests ?r2 = Inr False"
    by (rule mp)
  from c1 c2 show ?thesis by (rule conjI)
qed

text \<open>
  C7. The checksum path strips with \<open>lstrip('0x')\<close>, which removes leading characters
  \<open>0\<close> and \<open>x\<close> one by one: the stripped text is a suffix of the address that does
  not begin with \<open>0\<close> or \<open>x\<close>, every longer suffix begins with one of them, a further
  leading \<open>0\<close> is removed as well, and this stripped text is what is hashed (in
  lowercase) and checked for case.
\<close>

theorem lstrip_removes_zeros:
  "(\<exists>p. s = p @ lstrip ''0x'' s \<and> set p \<subseteq> {CHR ''0'', CHR ''x''})
   \<and> (lstrip ''0x'' s = [] \<or> hd (lstrip ''0x'' s) \<notin> {CHR ''0'', CHR ''x''})
   \<and> (\<forall>p t. s = p @ t \<and> length (lstrip ''0x'' s) < length t
         \<longrightarrow> t \<noteq> [] \<and> hd t \<in> {CHR ''0'', CHR ''x''})
   \<and> lstrip ''0x'' (CHR ''0'' # s) = lstrip ''0x'' s
   \<and> (is_ascii (address req) \<and> \<not> pattern_match lower_hex (address req)
        \<and> \<not> pattern_match upper_hex (address req)
      \<longrightarrow> EthereumValidator_validate H req =
            check_case (keccak_256_hexdigest H (map lower (lstrip ''0x'' (address req))))
              (lstrip ''0x'' (address req)))"
proof (intro conjI allI impI)
  show "\<exists>p. s = p @ lstrip ''0x'' s \<and> set p \<subseteq> {CHR ''0'', CHR ''x''}"
    using lstrip_split [of s "''0x''"] by simp
  show "lstrip ''0x'' s = [] \<or> hd (lstrip ''0x'' s) \<notin> {CHR ''0'', CHR ''x''}"
    using lstrip_head [of "''0x''" s] by simp
  show "lstrip ''0x'' (CHR ''0'' # s) = lstrip ''0x'' s"
    by (simp add: lstrip_def)
next
  fix p t
  assume "s = p @ t \<and> length (lstrip ''0x'' s) < length t"
  then have "s = p @ t" and "length (lstrip ''0x'' s) < length t"
    by blast+
  from lstrip_longest [OF this]
  show "t \<noteq> []" and "hd t \<in> {CHR ''0'', CHR ''x''}"
    by simp_all
next
  assume "is_ascii (address req) \<and> \<not> pattern_match lower_hex (address req)
        \<and> \<not> pattern_match upper_hex (address req)"
  then show "EthereumValidator_validate H req =
            check_case (keccak_256_hexdigest H (map lower (lstrip ''0x'' (address req))))
              (lstrip ''0x'' (address req))"
    by (simp add: EthereumValidator_validate_checksum_path)
qed

theorem lstrip_removes_zeros_witness:
  "lstrip ''0x'' ''0x00aB'' = ''aB''
   \<and> hd ''x00aB'' \<in> {CHR ''0'', CHR ''x''}
   \<and> EthereumValidator_validate constant_digests \<lparr>currency = ethereum, address = ''0x00aB''\<rparr>
       = Inr True"
proof -
  let ?r = "\<lparr>currency = ethereum, address = ''0x00aB''\<rparr>"
  note t = lstrip_removes_zeros [of "''0x00aB''" ?r constant_digests]
  have strip: "lstrip ''0x'' ''0x00aB'' = ''aB''"
    by (simp add: lstrip_def)
  have longer: "''0x00aB'' = ''0'' @ ''x00aB''
      \<and> length (lstrip ''0x'' ''0x00aB'') < length ''x00aB''"
    by (simp add: strip)
  from t [THEN conjunct2, THEN conjunct2, THEN conjunct1, rule_format, OF longer]
  have c2: "hd ''x00aB'' \<in> {CHR ''0'', CHR ''x''}"
    by simp
  have path: "is_ascii (address ?r) \<and> \<not> pattern_match lower_hex (address ?r)
      \<and> \<not> pattern_match upper_hex (address ?r)"
    by (simp add: is_ascii_def short_not_pattern)
  from t [THEN conjunct2, THEN conjunct2, THEN conjunct2, THEN conjunct2, rule_format, OF path]
  have c3: "EthereumValidator_validate constant_digests ?r = Inr True"
    by (simp add: strip constant_digests_keccak int16_def upper_def lower_def)
  from strip c2 c3 show ?thesis by simp
qed

section \<open>Evaluations with the default alphabet\<close>

lemma DEFAULT_CHARSET_shape: "length DEFAULT_CHARSET = 58" "hd DEFAULT_CHARSET = CHR ''1''"
  by (simp_all add: DEFAULT_CHARSET_def)

lemma DEFAULT_CHARSET_index:
  "bytes_index DEFAULT_CHARSET CHR ''1'' = Inr 0"
  "bytes_index DEFAULT_CHARSET CHR ''2'' = Inr 1"
  "bytes_index DEFAULT_CHARSET CHR ''3'' = Inr 2"
  "bytes_index DEFAULT_CHARSET CHR ''4'' = Inr 3"
  "bytes_index DEFAULT_CHARSET CHR ''5'' = Inr 4"
  "bytes_index DEFAULT_CHARSET CHR ''6'' = Inr 5"
  "bytes_index DEFAULT_CHARSET CHR ''7'' = Inr 6"
  "bytes_index DEFAULT_CHARSET CHR ''8'' = Inr 7"
  "bytes_index DEFAULT_CHARSET CHR ''9'' = Inr 8"
  "bytes_index DEFAULT_CHARSET CHR ''A'' = Inr 9"
  "bytes_index DEFAULT_CHARSET CHR ''B'' = Inr 10"
  "bytes_index DEFAULT_CHARSET CHR ''C'' = Inr 11"
  "bytes_index DEFAULT_CHARSET CHR ''D'' = Inr 12"
  "bytes_index DEFAULT_CHARSET CHR ''E'' = Inr 13"
  "bytes_index DEFAULT_CHARSET CHR ''F'' = Inr 14"
  "bytes_index DEFAULT_CHARSET CHR ''G'' = Inr 15"
  "bytes_index DEFAULT_CHARSET CHR ''H'' = Inr 16"
  "bytes_index DEFAULT_CHARSET CHR ''J'' = Inr 17"
  "bytes_index DEFAULT_CHARSET CHR ''K'' = Inr 18"
  "bytes_index DEFAULT_CHARSET CHR ''L'' = Inr 19"
  "bytes_index DEFAULT_CHARSET CHR ''M'' = Inr 20"
  "bytes_index DEFAULT_CHARSET CHR ''N'' = Inr 21"
  "bytes_index DEFAULT_CHARSET CHR ''P'' = Inr 22"
  "bytes_index DEFAULT_CHARSET CHR ''Q'' = Inr 23"
  "bytes_index DEFAULT_CHARSET CHR ''R'' = Inr 24"
  "bytes_index DEFAULT_CHARSET CHR ''S'' = Inr 25"
  "bytes_index DEFAULT_CHARSET CHR ''T'' = Inr 26"
  "bytes_index DEFAULT_CHARSET CHR ''U'' = Inr 27"
  "bytes_index DEFAULT_CHARSET CHR ''V'' = Inr 28"
  "bytes_index DEFAULT_CHARSET CHR ''W'' = Inr 29"
  "bytes_index DEFAULT_CHARSET CHR ''X'' = Inr 30"
  "bytes_index DEFAULT_CHARSET CHR ''Y'' = Inr 31"
  "bytes_index DEFAULT_CHARSET CHR ''Z'' = Inr 32"
  "bytes_index DEFAULT_CHARSET CHR ''a'' = Inr 33"
  "bytes_index DEFAULT_CHARSET CHR ''b'' = Inr 34"
  "bytes_index DEFAULT_CHARSET CHR ''c'' = Inr 35"
  "bytes_index DEFAULT_CHARSET CHR ''d'' = Inr 36"
  "bytes_index DEFAULT_CHARSET CHR ''e'' = Inr 37"
  "bytes_index DEFAULT_CHARSET CHR ''f'' = Inr 38"
  "bytes_index DEFAULT_CHARSET CHR ''g'' = Inr 39"
  "bytes_index DEFAULT_CHARSET CHR ''h'' = Inr 40"
  "bytes_index DEFAULT_CHARSET CHR ''i'' = Inr 41"
  "bytes_index DEFAULT_CHARSET CHR ''j'' = Inr 42"
  "bytes_index DEFAULT_CHARSET CHR ''k'' = Inr 43"
  "bytes_index DEFAULT_CHARSET CHR ''m'' = Inr 44"
  "bytes_index DEFAULT_CHARSET CHR ''n'' = Inr 45"
  "bytes_index DEFAULT_CHARSET CHR ''o'' = Inr 46"
  "bytes_index DEFAULT_CHARSET CHR ''p'' = Inr 47"
  "bytes_index DEFAULT_CHARSET CHR ''q'' = Inr 48"
  "bytes_index DEFAULT_CHARSET CHR ''r'' = Inr 49"
  "bytes_index DEFAULT_CHARSET CHR ''s'' = Inr 50"
  "bytes_index DEFAULT_CHARSET CHR ''t'' = Inr 51"
  "bytes_index DEFAULT_CHARSET CHR ''u'' = Inr 52"
  "bytes_index DEFAULT_CHARSET CHR ''v'' = Inr 53"
  "bytes_index DEFAULT_CHARSET CHR ''w'' = Inr 54"
  "bytes_index DEFAULT_CHARSET CHR ''x'' = Inr 55"
  "bytes_index DEFAULT_CHARSET CHR ''y'' = Inr 56"
  "bytes_index DEFAULT_CHARSET CHR ''z'' = Inr 57"
  by (simp_all add: DEFAULT_CHARSET_def)

lemma b58decode_1Wh4bh:
  "b58decode ''1Wh4bh'' None = Inr [CHR 0x00, CHR 0x14, CHR 0x06, CHR 0xe0, CHR 0x58]"
  by (simp add: b58decode_def lstrip_def DEFAULT_CHARSET_shape DEFAULT_CHARSET_index
      char_of_def bit_0)

lemma b58encode_1Wh4bh:
  "b58encode [CHR 0x00, CHR 0x14, CHR 0x06, CHR 0xe0, CHR 0x58] None = Inr ''1Wh4bh''"
  by (simp add: b58encode_def DEFAULT_CHARSET_def lstrip_def)

lemma b58decode_docstring_address:
  "b58decode ''1BoatSLRHtKNngkdXEeobR76b53LETtpyT'' None =
     Inr [CHR 0x00, CHR 0x76, CHR 0x80, CHR 0xad, CHR 0xec, CHR 0x8e, CHR 0xab, CHR 0xca, CHR 0xba, CHR 0xc6, CHR 0x76, CHR 0xbe, CHR 0x9e, CHR 0x83, CHR 0x85, CHR 0x4a, CHR 0xde, CHR 0x0b, CHR 0xd2, CHR 0x2c, CHR 0xdb, CHR 0x0b, CHR 0xb9, CHR 0x60, CHR 0xde]"
  by (simp add: b58decode_def lstrip_def DEFAULT_CHARSET_shape DEFAULT_CHARSET_index
      char_of_def bit_0)

lemma b58encode_docstring_address:
  "b58encode [CHR 0x00, CHR 0x76, CHR 0x80, CHR 0xad, CHR 0xec, CHR 0x8e, CHR 0xab, CHR 0xca, CHR 0xba, CHR 0xc6, CHR 0x76, CHR 0xbe, CHR 0x9e, CHR 0x83, CHR 0x85, CHR 0x4a, CHR 0xde, CHR 0x0b, CHR 0xd2, CHR 0x2c, CHR 0xdb, CHR 0x0b, CHR 0xb9, CHR 0x60, CHR 0xde] None =
     Inr ''1BoatSLRHtKNngkdXEeobR76b53LETtpyT''"
  by (simp add: b58encode_def DEFAULT_CHARSET_def lstrip_def)

text \<open>
  The address of the entrypoint's docstring: once the digest of its payload is known
  to start with the four checksum bytes, the entrypoint returns the documented result.
\<close>

lemma docstring_example:
  assumes "take 4 (sha256 H (sha256 H [CHR 0x00, CHR 0x76, CHR 0x80, CHR 0xad, CHR 0xec, CHR 0x8e, CHR 0xab, CHR 0xca, CHR 0xba, CHR 0xc6, CHR 0x76, CHR 0xbe, CHR 0x9e, CHR 0x83, CHR 0x85, CHR 0x4a, CHR 0xde, CHR 0x0b, CHR 0xd2, CHR 0x2c, CHR 0xdb]))
      = [CHR 0x0b, CHR 0xb9, CHR 0x60, CHR 0xde]"
  shows "validate H Currencies_get ''btc'' (Bytes ''1BoatSLRHtKNngkdXEeobR76b53LETtpyT'')
      = Inr \<lparr>res_name = ''bitcoin'', res_ticker = ''btc'',
             res_address = ''1BoatSLRHtKNngkdXEeobR76b53LETtpyT'',
             valid = True, network = ''main''\<rparr>"
proof -
  let ?r = "\<lparr>currency = bitcoin, address = ''1BoatSLRHtKNngkdXEeobR76b53LETtpyT''\<rparr>"
  have dec: "b58decode (address ?r) (ValidationRequest_extras ?r) =
      Inr (CHR 0x00 # [CHR 0x76, CHR 0x80, CHR 0xad, CHR 0xec, CHR 0x8e, CHR 0xab, CHR 0xca, CHR 0xba, CHR 0xc6, CHR 0x76, CHR 0xbe, CHR 0x9e, CHR 0x83, CHR 0x85, CHR 0x4a, CHR 0xde, CHR 0x0b, CHR 0xd2, CHR 0x2c, CHR 0xdb, CHR 0x0b, CHR 0xb9, CHR 0x60, CHR 0xde])"
    by (simp add: bitcoin_extras b58decode_docstring_address)
  have v: "Base58CheckValidator_validate H ?r = Inr True"
    using assms
    by (simp add: Base58CheckValidator_validate_decoded [OF dec bitcoin_networks]
        bitcoin_extras b58encode_docstring_address)
  have "network_of_byte (of_char (CHR 0x00)) (networks (currency ?r)) = Some ''main''"
    by (simp add: bitcoin_def)
  then have nw: "Base58CheckValidator_network ?r = Inr (Some ''main'')"
    by (simp only: Base58CheckValidator_network_decoded [OF dec])
  have fields: "name bitcoin = ''bitcoin''" "ticker bitcoin = ''btc''"
    by (simp_all add: bitcoin_def)
  have "validate H Currencies_get ''btc'' (Bytes ''1BoatSLRHtKNngkdXEeobR76b53LETtpyT'')
      = ValidationResult_init (name (currency ?r)) (ticker (currency ?r)) (address ?r)
          True (Some ''main'')"
    by (simp only: validate_execute [OF btc_request]
        execute_module_Base58Check [OF bitcoin_validator] v nw sum.case)
  then show ?thesis
    by (simp add: fields ValidationResult_init_def)
qed

text \<open>
  C2. The claim: \<open>validate\<close> returns false for every address shorter than 25 or of
  length 35 and more. The comparison \<open>25 > len(address) > 35\<close> of the code holds for
  no length, so no address is rejected for its length. On the empty address, of length 0,
  the code goes on to decode, and indexing the empty result raises \<open>IndexError\<close>
  instead of returning false. The address \<open>1Wh4bh\<close>, of length 6, decodes to the
  version byte 0 followed by four bytes; with a digest function that gives these four
  bytes as the checksum of the version byte, as SHA-256 does, \<open>validate\<close> returns true.
\<close>

theorem length_gate_never_rejects:
  "Base58CheckValidator_validate H \<lparr>currency = bitcoin, address = []\<rparr> = Inl IndexError
   \<and> (take 4 (sha256 H (sha256 H [CHR 0x00])) = [CHR 0x14, CHR 0x06, CHR 0xe0, CHR 0x58]
      \<longrightarrow> Base58CheckValidator_validate H \<lparr>currency = bitcoin, address = ''1Wh4bh''\<rparr>
            = Inr True)"
proof (intro conjI impI)
  show "Base58CheckValidator_validate H \<lparr>currency = bitcoin, address = []\<rparr> = Inl IndexError"
    by (rule Base58CheckValidator_validate_empty) (simp add: bitcoin_extras b58decode_empty)
next
  let ?r = "\<lparr>currency = bitcoin, address = ''1Wh4bh''\<rparr>"
  assume sum: "take 4 (sha256 H (sha256 H [CHR 0x00]))
      = [CHR 0x14, CHR 0x06, CHR 0xe0, CHR 0x58]"
  have dec: "b58decode (address ?r) (ValidationRequest_extras ?r) =
      Inr (CHR 0x00 # [CHR 0x14, CHR 0x06, CHR 0xe0, CHR 0x58])"
    by (simp add: bitcoin_extras b58decode_1Wh4bh)
  show "Base58CheckValidator_validate H ?r = Inr True"
    using sum
    by (simp add: Base58CheckValidator_validate_decoded [OF dec bitcoin_networks]
        bitcoin_extras b58encode_1Wh4bh)
qed

theorem length_gate_never_rejects_witness:
  "length ''1Wh4bh'' < 25
   \<and> Base58CheckValidator_validate
        \<lparr>sha256 = (\<lambda>m. [CHR 0x14, CHR 0x06, CHR 0xe0, CHR 0x58]),
         keccak_256_hexdigest = (\<lambda>m. [])\<rparr>
        \<lparr>currency = bitcoin, address = ''1Wh4bh''\<rparr> = Inr True"
proof -
  let ?H = "\<lparr>sha256 = (\<lambda>m. [CHR 0x14, CHR 0x06, CHR 0xe0, CHR 0x58]),
         keccak_256_hexdigest = (\<lambda>m. [])\<rparr>"
  have "take 4 (sha256 ?H (sha256 ?H [CHR 0x00])) = [CHR 0x14, CHR 0x06, CHR 0xe0, CHR 0x58]"
    by simp
  with length_gate_never_rejects [of ?H, THEN conjunct2]
  have "Base58CheckValidator_validate ?H \<lparr>currency = bitcoin, address = ''1Wh4bh''\<rparr> = Inr True"
    by (rule mp)
  then show ?thesis by simp
qed

text \<open>
  The address made of the three bytes of one Kelvin sign: it is valid exactly when the
  first digit of the digest of \<open>k\<close> is greater than 7.
\<close>

lemma kelvin_sign_address:
  assumes "keccak_256_hexdigest H ''k'' = d # ds" and "int16 d = Inr v"
  shows "EthereumValidator_validate H
      \<lparr>currency = ethereum, address = [CHR 0xE2, CHR 0x84, CHR 0xAA]\<rparr> = Inr (v > 7)"
  using assms
  by (simp add: EthereumValidator_validate_def is_ascii_def lstrip_def uchar_lower_byte_def
      uchar_upper_same_def uchar_lower_same_def)

text \<open>
  C6. The claim: on the checksum path \<open>validate\<close> returns true exactly when every
  position of the stripped address follows the case rule. The address of 65 digits
  \<open>1\<close> is on the checksum path, and a digit follows the rule whatever the digit of
  the digest is; but the digest text has 64 digits, and the loop raises \<open>IndexError\<close>
  at \<open>addr_hash[64]\<close> instead of returning true.
\<close>

theorem long_address_raises:
  assumes "length (keccak_256_hexdigest H ''11111111111111111111111111111111111111111111111111111111111111111'') = 64"
    and "\<forall>d \<in> set (keccak_256_hexdigest H ''11111111111111111111111111111111111111111111111111111111111111111''). \<exists>v. int16 d = Inr v"
  shows "(\<forall>v. spec_case_ok v CHR ''1'')
       \<and> \<not> pattern_match lower_hex ''11111111111111111111111111111111111111111111111111111111111111111''
       \<and> \<not> pattern_match upper_hex ''11111111111111111111111111111111111111111111111111111111111111111''
       \<and> EthereumValidator_validate H \<lparr>currency = ethereum, address = ''11111111111111111111111111111111111111111111111111111111111111111''\<rparr>
           = Inl IndexError"
proof -
  let ?a = "''11111111111111111111111111111111111111111111111111111111111111111''"
  let ?r = "\<lparr>currency = ethereum, address = ?a\<rparr>"
  have ok: "\<forall>v. spec_case_ok v CHR ''1''"
    by (simp add: spec_case_ok_def upper_def lower_def)
  have np: "\<not> pattern_match lower_hex ?a" "\<not> pattern_match upper_hex ?a"
    by (simp_all add: pattern_match_def match_hex40_def)
  have ones: "\<forall>c \<in> set ?a. c = CHR ''1''"
    by simp
  have strip: "lstrip ''0x'' ?a = ?a"
    by (simp add: lstrip_def)
  have low: "lower CHR ''1'' = CHR ''1''"
    by (simp add: lower_def)
  have "EthereumValidator_validate H ?r = check_case (keccak_256_hexdigest H ?a) ?a"
    using np by (simp add: EthereumValidator_validate_def is_ascii_def Let_def strip low)
  also have "\<dots> = Inl IndexError"
  proof -
    have nobad: "\<not> (\<exists>i < min (length ?a) (length (keccak_256_hexdigest H ?a)).
        \<exists>v. int16 (keccak_256_hexdigest H ?a ! i) = Inr v \<and> \<not> spec_case_ok v (?a ! i))"
    proof
      assume "\<exists>i < min (length ?a) (length (keccak_256_hexdigest H ?a)).
        \<exists>v. int16 (keccak_256_hexdigest H ?a ! i) = Inr v \<and> \<not> spec_case_ok v (?a ! i)"
      then obtain i v where i: "i < length ?a" and bad: "\<not> spec_case_ok v (?a ! i)"
        by auto
      from i have "?a ! i \<in> set ?a"
        by (rule nth_mem)
      with ones have "?a ! i = CHR ''1''"
        by blast
      with bad ok show False
        by simp
    qed
    have long: "\<not> length ?a \<le> length (keccak_256_hexdigest H ?a)"
      using assms(1) by simp
    show ?thesis
      unfolding check_case_positions [OF assms(2), of ?a]
      using nobad long by (simp only: if_False)
  qed
  finally show ?thesis
    using ok np by simp
qed

theorem long_address_raises_witness:
  "EthereumValidator_validate constant_digests
     \<lparr>currency = ethereum, address = ''11111111111111111111111111111111111111111111111111111111111111111''\<rparr> = Inl IndexError"
proof -
  have len: "length (keccak_256_hexdigest constant_digests ''11111111111111111111111111111111111111111111111111111111111111111'') = 64"
    by (simp add: constant_digests_keccak)
  from long_address_raises [OF len constant_digests_hex]
  show ?thesis by blast
qed

end
